theory Spec2Isabelle
  imports Complex_Main
begin

section \<open>Data model\<close>

text \<open>
  The program is \<^verbatim>\<open>code.py\<close>: the class \<^verbatim>\<open>OvershootAnimator\<close> and the main loop
  that walks the list \<^verbatim>\<open>coordinator["steps"]\<close>.

  Conventions of the embedding.
  \<^item> Python floats (times, durations, the eased positions) are real numbers: rounding
    of the floating-point operations is not modelled.
  \<^item> The clock \<^verbatim>\<open>adafruit_ticks.ticks_ms() / 1000\<close> is read from outside: the
    methods of the animator take the value they read as their first argument, and the
    main loop takes the sequence of all readings.
  \<^item> An exception ends the program (the source has no handler), so a function that can
    raise returns \<open>Inl\<close> of the exception and no state.
  \<^item> Objects that are shared by reference (tile grids, animators) live in stores indexed
    by natural numbers; a step holds the indices.
\<close>

datatype py_error = ZeroDivisionError | TypeError | KeyError | IndexError

text \<open>A palette (\<^verbatim>\<open>displayio.Palette\<close>): its colours. Nothing below looks inside.\<close>

type_synonym palette = "nat list"

text \<open>
  The animated element (a \<^verbatim>\<open>TileGrid\<close> or a \<^verbatim>\<open>Group\<close>): the attributes the program
  reads and writes. \<open>el_frame\<close> is the tile index \<^verbatim>\<open>element[0]\<close>.
\<close>

record elem =
  el_x :: int
  el_y :: int
  el_frame :: int
  pixel_shader :: palette

text \<open>The attributes of an \<^verbatim>\<open>OvershootAnimator\<close>; \<open>element\<close> is the index of its element.\<close>

record animator =
  element :: nat
  pos_animating :: bool
  start_time :: real
  start_x :: int
  start_y :: int
  target_x :: int
  target_y :: int
  overshoot_x :: real
  overshoot_y :: real
  duration :: real
  overshoot_pixels :: real
  eased_value :: "real option"
  cur_sprite_index :: "int option"
  last_sprite_frame_time :: real
  sprite_anim_start_time :: real
  sprite_anim_from_index :: "int option"
  sprite_anim_to_index :: "int option"
  sprite_anim_delay :: "real option"

text \<open>\<^verbatim>\<open>OvershootAnimator.__init__\<close>.\<close>

definition init_animator :: "nat \<Rightarrow> animator" where
  "init_animator el =
     \<lparr>element = el, pos_animating = False, start_time = 0, start_x = 0, start_y = 0,
      target_x = 0, target_y = 0, overshoot_x = 0, overshoot_y = 0, duration = 0,
      overshoot_pixels = 0, eased_value = None, cur_sprite_index = None,
      last_sprite_frame_time = - 1, sprite_anim_start_time = - 1,
      sprite_anim_from_index = None, sprite_anim_to_index = None,
      sprite_anim_delay = None\<rparr>"

text \<open>
  The keyword arguments of \<^verbatim>\<open>animate_to\<close>, and their defaults
  (\<^verbatim>\<open>duration=1.0, overshoot_pixels=20, start_sprite_anim_at=None, sprite_delay=1/60,
  sprite_from_index=None, sprite_to_index=None, eased_value=None\<close>).
\<close>

record animate_args =
  arg_duration :: real
  arg_overshoot_pixels :: real
  arg_start_sprite_anim_at :: "real option"
  arg_sprite_delay :: "real option"
  arg_sprite_from_index :: "int option"
  arg_sprite_to_index :: "int option"
  arg_eased_value :: "real option"

definition default_args :: animate_args where
  "default_args =
     \<lparr>arg_duration = 1, arg_overshoot_pixels = 20, arg_start_sprite_anim_at = None,
      arg_sprite_delay = Some (1 / 60), arg_sprite_from_index = None,
      arg_sprite_to_index = None, arg_eased_value = None\<rparr>"

section \<open>OvershootAnimator\<close>

text \<open>
  \<^verbatim>\<open>animate_to\<close> (lines 59-112). The element is read, never written. The fields are
  stored in the order of the source: start position and time, the sprite fields when
  \<^verbatim>\<open>start_sprite_anim_at\<close> is given, target and parameters; only then is the distance
  tested.
\<close>

definition animate_to ::
  "real \<Rightarrow> int \<Rightarrow> int \<Rightarrow> animate_args \<Rightarrow> animator \<Rightarrow> elem \<Rightarrow> bool \<times> animator" where
  "animate_to now tx ty args a e =
     (let a1 = a\<lparr>start_x := el_x e, start_y := el_y e, start_time := now\<rparr>;
          a2 = (case arg_start_sprite_anim_at args of
                  None \<Rightarrow> a1
                | Some off \<Rightarrow>
                    a1\<lparr>sprite_anim_start_time := now + off,
                       sprite_anim_to_index := arg_sprite_to_index args,
                       sprite_anim_from_index := arg_sprite_from_index args,
                       cur_sprite_index := arg_sprite_from_index args,
                       sprite_anim_delay := arg_sprite_delay args\<rparr>);
          a3 = a2\<lparr>target_x := tx, target_y := ty, duration := arg_duration args,
                  overshoot_pixels := arg_overshoot_pixels args\<rparr>;
          dx = real_of_int (tx - start_x a3);
          dy = real_of_int (ty - start_y a3);
          distance = sqrt (dx * dx + dy * dy)
      in if distance \<le> 0 then (False, a3)
         else
           (let dir_x = dx / distance;
                dir_y = dy / distance
            in (True,
                a3\<lparr>overshoot_x := real_of_int tx + dir_x * arg_overshoot_pixels args,
                   overshoot_y := real_of_int ty + dir_y * arg_overshoot_pixels args,
                   eased_value := arg_eased_value args,
                   pos_animating := True\<rparr>)))"

text \<open>
  \<^verbatim>\<open>sprite_anim_tick\<close> (lines 114-133). Arithmetic or comparison with \<^verbatim>\<open>None\<close>
  raises \<^verbatim>\<open>TypeError\<close>. The test of line 115 adds and compares floats in the
  source and real numbers here: the two can differ when the time is within rounding of
  the threshold, so the statements below take the outcome of the test as a hypothesis
  and never derive it from a sum of times that meets the threshold exactly.
\<close>

definition sprite_anim_tick ::
  "real \<Rightarrow> animator \<Rightarrow> elem \<Rightarrow> py_error + (bool \<times> animator \<times> elem)" where
  "sprite_anim_tick cur_time a e =
     (case sprite_anim_delay a of
        None \<Rightarrow> Inl TypeError
      | Some d \<Rightarrow>
          if cur_time \<ge> last_sprite_frame_time a + d then
            (case cur_sprite_index a of
               None \<Rightarrow> Inl TypeError
             | Some i \<Rightarrow>
                 (let e1 = e\<lparr>el_frame := i\<rparr>;
                      a1 = a\<lparr>last_sprite_frame_time := cur_time,
                             cur_sprite_index := Some (i + 1)\<rparr>
                  in case sprite_anim_to_index a1 of
                       None \<Rightarrow> Inl TypeError
                     | Some t \<Rightarrow>
                         if i + 1 > t then
                           Inr (False,
                                a1\<lparr>cur_sprite_index := None,
                                   sprite_anim_from_index := None,
                                   sprite_anim_to_index := None,
                                   sprite_anim_delay := None,
                                   last_sprite_frame_time := - 1,
                                   sprite_anim_start_time := - 1\<rparr>,
                                e1)
                         else Inr (True, a1, e1)))
          else Inr (True, a, e))"

text \<open>Python's \<^verbatim>\<open>int(x)\<close> on a float: truncation towards zero.\<close>

definition py_int :: "real \<Rightarrow> int" where
  "py_int r = (if r \<ge> 0 then \<lfloor>r\<rfloor> else \<lceil>r\<rceil>)"

text \<open>
  \<^verbatim>\<open>tick\<close>, lines 177-199: the current position from the progress. A negative float
  to the power 1.2 is a complex number in Python, which \<^verbatim>\<open>int()\<close> rejects; dividing by
  an \<^verbatim>\<open>eased_value\<close> of zero raises.
\<close>

definition current_position :: "real \<Rightarrow> animator \<Rightarrow> py_error + (real \<times> real)" where
  "current_position progress a =
     (if overshoot_pixels a > 0 then
        if progress < 7 / 10 then
          (let eased = progress / (7 / 10)
           in if eased < 0 then Inl TypeError
              else
                (let eased = eased powr (12 / 10)
                 in Inr (real_of_int (start_x a)
                           + (overshoot_x a - real_of_int (start_x a)) * eased,
                         real_of_int (start_y a)
                           + (overshoot_y a - real_of_int (start_y a)) * eased)))
        else
          (let sub_progress = (progress - 7 / 10) / (3 / 10);
               eased = 1 - (1 - sub_progress) ^ 2
           in Inr (overshoot_x a + (real_of_int (target_x a) - overshoot_x a) * eased,
                   overshoot_y a + (real_of_int (target_y a) - overshoot_y a) * eased))
      else
        (case eased_value a of
           None \<Rightarrow>
             (let eased = 1 - (1 - progress) ^ 4
              in Inr (real_of_int (start_x a)
                        + real_of_int (target_x a - start_x a) * eased,
                      real_of_int (start_y a)
                        + real_of_int (target_y a - start_y a) * eased))
         | Some v \<Rightarrow>
             if v = 0 then Inl ZeroDivisionError
             else
               (let eased = progress / v
                in Inr (real_of_int (start_x a)
                          + real_of_int (target_x a - start_x a) * eased,
                        real_of_int (start_y a)
                          + real_of_int (target_y a - start_y a) * eased))))"

text \<open>
  \<^verbatim>\<open>tick\<close>, lines 145-157: the sprite sub-animation and the idle test. The result is
  the value of an early \<^verbatim>\<open>return\<close> if there is one, the local variable
  \<^verbatim>\<open>still_sprite_animating\<close>, and the state.
\<close>

definition tick_sprite_part ::
  "real \<Rightarrow> animator \<Rightarrow> elem \<Rightarrow> py_error + (bool option \<times> bool \<times> animator \<times> elem)" where
  "tick_sprite_part now a e =
     (if cur_sprite_index a \<noteq> None then
        if now \<ge> sprite_anim_start_time a then
          (case sprite_anim_tick now a e of
             Inl err \<Rightarrow> Inl err
           | Inr (still, a1, e1) \<Rightarrow>
               if \<not> still then Inr (Some False, still, a1, e1)
               else Inr (None, still, a1, e1))
        else Inr (None, False, a, e)
      else if \<not> pos_animating a then Inr (Some False, False, a, e)
      else Inr (None, False, a, e))"

text \<open>
  \<^verbatim>\<open>tick\<close>, lines 159-207: the position motion, given \<^verbatim>\<open>still_sprite_animating\<close>.
  A float division by zero raises.
\<close>

definition tick_position_part ::
  "real \<Rightarrow> bool \<Rightarrow> animator \<Rightarrow> elem \<Rightarrow> py_error + (bool \<times> animator \<times> elem)" where
  "tick_position_part now still_sprite_animating a e =
     (if duration a = 0 then Inl ZeroDivisionError
      else
        (let elapsed = now - start_time a;
             progress = elapsed / duration a
         in if progress \<ge> 1 then
              (let e1 = (if el_x e \<noteq> target_x a \<or> el_y e \<noteq> target_y a
                         then e\<lparr>el_x := target_x a, el_y := target_y a\<rparr> else e)
               in Inr (still_sprite_animating, a\<lparr>pos_animating := False\<rparr>, e1))
            else
              (case current_position progress a of
                 Inl err \<Rightarrow> Inl err
               | Inr (current_x, current_y) \<Rightarrow>
                   Inr (True, a, e\<lparr>el_x := py_int current_x, el_y := py_int current_y\<rparr>))))"

text \<open>\<^verbatim>\<open>tick\<close> (lines 135-207): the returned flag and the state after the call.\<close>

definition tick :: "real \<Rightarrow> animator \<Rightarrow> elem \<Rightarrow> py_error + (bool \<times> animator \<times> elem)" where
  "tick now a e =
     (case tick_sprite_part now a e of
        Inl err \<Rightarrow> Inl err
      | Inr (Some r, still, a1, e1) \<Rightarrow> Inr (r, a1, e1)
      | Inr (None, still, a1, e1) \<Rightarrow> tick_position_part now still a1 e1)"

text \<open>
  A caller that calls \<open>f\<close> (\<open>tick\<close> or \<open>sprite_anim_tick\<close>) once at each of the
  given clock values, in turn, and lists what each call returned and left behind.
\<close>

primrec call_at_times ::
  "(real \<Rightarrow> animator \<Rightarrow> elem \<Rightarrow> py_error + (bool \<times> animator \<times> elem))
     \<Rightarrow> real list \<Rightarrow> animator \<Rightarrow> elem \<Rightarrow> py_error + (bool \<times> animator \<times> elem) list" where
  "call_at_times f [] a e = Inr []"
| "call_at_times f (t # ts) a e =
     (case f t a e of
        Inl err \<Rightarrow> Inl err
      | Inr (r, a1, e1) \<Rightarrow>
          (case call_at_times f ts a1 e1 of
             Inl err \<Rightarrow> Inl err
           | Inr rs \<Rightarrow> Inr ((r, a1, e1) # rs)))"

section \<open>The coordinator and the main loop\<close>

text \<open>
  A step of \<^verbatim>\<open>coordinator["steps"]\<close> is a dictionary. Its \<^verbatim>\<open>"type"\<close> is
  \<^verbatim>\<open>"animation_step"\<close> or \<^verbatim>\<open>"change_palette"\<close>; the keys \<^verbatim>\<open>"start_time"\<close> and
  \<^verbatim>\<open>"started"\<close> are common to both. \<open>palettes\<close> holds the keys added by the setup loop
  (lines 425-438: \<^verbatim>\<open>"default_palette"\<close>, \<^verbatim>\<open>"red_palette"\<close>, ...), in the order added;
  the steps inserted later have none.
\<close>

record animation_step =
  tilegrid :: nat
  animator :: nat
  offscreen_loc :: "int \<times> int"
  onscreen_loc :: "int \<times> int"
  move_duration :: real
  step_overshoot_pixels :: real
  step_eased_value :: "real option"
  sprite_anim_range :: "(int \<times> int) option"
  sprite_delay :: "real option"
  sprite_anim_start :: "real option"
  palettes :: "(string \<times> palette) list"

datatype step_type = Animation_step animation_step | Change_palette (new_palette: string)

record step =
  step_start_time :: real
  started :: bool
  step_type :: step_type

text \<open>The keys every dictionary of the kind has, whatever palettes were added.\<close>

definition animation_step_keys :: "string list" where
  "animation_step_keys =
     [''type'', ''tilegrid'', ''offscreen_loc'', ''onscreen_loc'', ''move_duration'',
      ''overshoot_pixels'', ''eased_value'', ''sprite_anim_range'', ''sprite_delay'',
      ''start_time'', ''sprite_anim_start'', ''started'', ''animator'']"

definition change_palette_keys :: "string list" where
  "change_palette_keys = [''start_time'', ''type'', ''new_palette'', ''started'']"

text \<open>
  What the program does to the outside, in the order it does it: the \<open>n\<close>-th reading of
  the clock, the calls made for the step of index \<open>i\<close> with what they returned, the
  display refresh and \<^verbatim>\<open>time.sleep\<close>.
\<close>

datatype event =
    Clock_read nat
  | Animate_to_call nat bool
  | Palette_broadcast nat
  | Tick_call nat bool
  | Display_refresh
  | Sleep real

text \<open>
  The state of the main program: the step list, the animators and elements by index,
  the global \<^verbatim>\<open>start_time\<close> (the loop epoch), how many times the clock has been read,
  and the record of events so far (kept for the statements below; the program has no
  such variable).
\<close>

record program =
  steps :: "step list"
  animators :: "nat \<Rightarrow> animator"
  elements :: "nat \<Rightarrow> elem"
  loop_start_time :: real
  clock_reads :: nat
  events :: "event list"

text \<open>
  \<^verbatim>\<open>adafruit_ticks.ticks_ms() / 1000\<close>: \<open>ticks n\<close> is the value of the \<open>n\<close>-th reading
  since the program started.
\<close>

definition read_clock :: "(nat \<Rightarrow> real) \<Rightarrow> program \<Rightarrow> real \<times> program" where
  "read_clock ticks p =
     (ticks (clock_reads p),
      p\<lparr>clock_reads := Suc (clock_reads p),
        events := events p @ [Clock_read (clock_reads p)]\<rparr>)"

text \<open>
  Lines 651-653, one round of the inner loop: \<^verbatim>\<open>if step["new_palette"] in _cur_step\<close>
  tests every key of the dictionary. A name that is one of the fixed keys is found in
  the step, and then a \<^verbatim>\<open>change_palette\<close> step has no \<^verbatim>\<open>"tilegrid"\<close>
  (\<^verbatim>\<open>KeyError\<close>) and an animation step would store a value that is no palette
  (modelled as \<^verbatim>\<open>TypeError\<close>).
\<close>

definition set_palette :: "string \<Rightarrow> step \<Rightarrow> (nat \<Rightarrow> elem) \<Rightarrow> py_error + (nat \<Rightarrow> elem)" where
  "set_palette name cur_step els =
     (case step_type cur_step of
        Change_palette _ \<Rightarrow>
          if name \<in> set change_palette_keys then Inl KeyError else Inr els
      | Animation_step m \<Rightarrow>
          if name \<in> set animation_step_keys then Inl TypeError
          else
            (case map_of (palettes m) name of
               None \<Rightarrow> Inr els
             | Some pal \<Rightarrow>
                 Inr (els(tilegrid m := (els (tilegrid m))\<lparr>pixel_shader := pal\<rparr>))))"

text \<open>Lines 651-653: the broadcast over all the steps.\<close>

primrec change_palette :: "string \<Rightarrow> step list \<Rightarrow> (nat \<Rightarrow> elem) \<Rightarrow> py_error + (nat \<Rightarrow> elem)" where
  "change_palette name [] els = Inr els"
| "change_palette name (cur_step # rest) els =
     (case set_palette name cur_step els of
        Inl err \<Rightarrow> Inl err
      | Inr els1 \<Rightarrow> change_palette name rest els1)"

text \<open>Lines 636-648: the arguments the step passes to \<^verbatim>\<open>animate_to\<close>.\<close>

definition step_args :: "animation_step \<Rightarrow> animate_args" where
  "step_args m =
     (case sprite_anim_range m of
        Some (from_index, to_index) \<Rightarrow>
          \<lparr>arg_duration = move_duration m,
           arg_overshoot_pixels = step_overshoot_pixels m,
           arg_start_sprite_anim_at = sprite_anim_start m,
           arg_sprite_delay = sprite_delay m,
           arg_sprite_from_index = Some from_index,
           arg_sprite_to_index = Some to_index,
           arg_eased_value = step_eased_value m\<rparr>
      | None \<Rightarrow>
          default_args\<lparr>arg_duration := move_duration m,
            arg_overshoot_pixels := step_overshoot_pixels m,
            arg_eased_value := step_eased_value m\<rparr>)"

text \<open>
  Lines 634-653: the one-time effect of the step of index \<open>i\<close>. \<^verbatim>\<open>animate_to\<close> reads
  the clock itself.
\<close>

definition fire :: "(nat \<Rightarrow> real) \<Rightarrow> nat \<Rightarrow> step \<Rightarrow> program \<Rightarrow> py_error + program" where
  "fire ticks i step p =
     (case step_type step of
        Animation_step m \<Rightarrow>
          (let (t, p1) = read_clock ticks p;
               a = animators p1 (animator m);
               (r, a1) = animate_to t (fst (onscreen_loc m)) (snd (onscreen_loc m))
                           (step_args m) a (elements p1 (element a))
           in Inr (p1\<lparr>animators := (animators p1)(animator m := a1),
                     events := events p1 @ [Animate_to_call i r]\<rparr>))
      | Change_palette name \<Rightarrow>
          (case change_palette name (steps p) (elements p) of
             Inl err \<Rightarrow> Inl err
           | Inr els \<Rightarrow>
               Inr (p\<lparr>elements := els, events := events p @ [Palette_broadcast i]\<rparr>)))"

text \<open>
  \<^verbatim>\<open>step["animator"].tick()\<close> for the step of index \<open>i\<close>: \<^verbatim>\<open>tick\<close> reads the clock
  itself and works on the animator's own element.
\<close>

definition tick_animator ::
  "(nat \<Rightarrow> real) \<Rightarrow> nat \<Rightarrow> nat \<Rightarrow> program \<Rightarrow> py_error + (bool \<times> program)" where
  "tick_animator ticks i k p =
     (let (t, p1) = read_clock ticks p;
          a = animators p1 k
      in case tick t a (elements p1 (element a)) of
           Inl err \<Rightarrow> Inl err
         | Inr (r, a1, e1) \<Rightarrow>
             Inr (r, p1\<lparr>animators := (animators p1)(k := a1),
                        elements := (elements p1)(element a := e1),
                        events := events p1 @ [Tick_call i r]\<rparr>))"

text \<open>
  Lines 631-662: the body of the \<^verbatim>\<open>for\<close> loop for the step of index \<open>i\<close>, on the
  local variable \<^verbatim>\<open>still_going\<close> and the program state.
\<close>

definition step_body ::
  "(nat \<Rightarrow> real) \<Rightarrow> real \<Rightarrow> nat \<Rightarrow> bool \<times> program \<Rightarrow> py_error + (bool \<times> program)" where
  "step_body ticks now i sp =
     (let still_going = fst sp; p = snd sp; step = steps p ! i
      in if now - loop_start_time p \<ge> step_start_time step then
           (case (if \<not> started step
                  then fire ticks i step (p\<lparr>steps := (steps p)[i := step\<lparr>started := True\<rparr>]\<rparr>)
                  else Inr p) of
              Inl err \<Rightarrow> Inl err
            | Inr p1 \<Rightarrow>
                (case step_type step of
                   Animation_step m \<Rightarrow>
                     (case tick_animator ticks i (animator m) p1 of
                        Inl err \<Rightarrow> Inl err
                      | Inr (r, p2) \<Rightarrow>
                          Inr (if i = length (steps p2) - 1 then r else still_going, p2))
                 | Change_palette _ \<Rightarrow>
                     Inr (if i = length (steps p1) - 1 then False else still_going, p1)))
         else Inr (still_going, p))"

text \<open>Lines 630-662: the \<^verbatim>\<open>for\<close> loop over the indices of the steps.\<close>

primrec run_steps ::
  "(nat \<Rightarrow> real) \<Rightarrow> real \<Rightarrow> nat list \<Rightarrow> bool \<times> program \<Rightarrow> py_error + (bool \<times> program)" where
  "run_steps ticks now [] sp = Inr sp"
| "run_steps ticks now (i # rest) sp =
     (case step_body ticks now i sp of
        Inl err \<Rightarrow> Inl err
      | Inr sp1 \<Rightarrow> run_steps ticks now rest sp1)"

text \<open>Lines 667-673: the reset of the elements and of the \<^verbatim>\<open>started\<close> flags.\<close>

definition reset_step :: "step \<Rightarrow> (nat \<Rightarrow> elem) \<Rightarrow> nat \<Rightarrow> elem" where
  "reset_step step els =
     (case step_type step of
        Animation_step m \<Rightarrow>
          (let els1 = els(tilegrid m :=
                        (els (tilegrid m))\<lparr>el_x := fst (offscreen_loc m),
                                            el_y := snd (offscreen_loc m)\<rparr>)
           in case map_of (palettes m) ''default_palette'' of
                Some pal \<Rightarrow> els1(tilegrid m := (els1 (tilegrid m))\<lparr>pixel_shader := pal\<rparr>)
              | None \<Rightarrow> els1)
      | Change_palette _ \<Rightarrow> els)"

primrec reset_steps :: "step list \<Rightarrow> (nat \<Rightarrow> elem) \<Rightarrow> step list \<times> (nat \<Rightarrow> elem)" where
  "reset_steps [] els = ([], els)"
| "reset_steps (step # rest) els =
     (let (rest1, els1) = reset_steps rest (reset_step step els)
      in (step\<lparr>started := False\<rparr> # rest1, els1))"

text \<open>
  Lines 666-680: the restart. \<^verbatim>\<open>coordinator["steps"][0]["tilegrid"][0] = 0\<close> needs a
  first step that has a tile grid.
\<close>

definition restart :: "(nat \<Rightarrow> real) \<Rightarrow> program \<Rightarrow> py_error + program" where
  "restart ticks p =
     (let (steps1, els1) = reset_steps (steps p) (elements p);
          p1 = p\<lparr>steps := steps1, elements := els1\<rparr>
      in case steps p1 of
           [] \<Rightarrow> Inl IndexError
         | step0 # _ \<Rightarrow>
             (case step_type step0 of
                Change_palette _ \<Rightarrow> Inl KeyError
              | Animation_step m \<Rightarrow>
                  (let p2 = p1\<lparr>elements := (elements p1)(tilegrid m :=
                                   (elements p1 (tilegrid m))\<lparr>el_frame := 0\<rparr>)\<rparr>;
                       p3 = p2\<lparr>events := events p2 @ [Sleep 1, Display_refresh]\<rparr>;
                       (t, p4) = read_clock ticks p3
                   in Inr (p4\<lparr>loop_start_time := t\<rparr>))))"

text \<open>Lines 625-680: one round of \<^verbatim>\<open>while True\<close>.\<close>

definition loop_iteration :: "(nat \<Rightarrow> real) \<Rightarrow> program \<Rightarrow> py_error + program" where
  "loop_iteration ticks p =
     (let (now, p0) = read_clock ticks p
      in case run_steps ticks now [0..<length (steps p0)] (True, p0) of
           Inl err \<Rightarrow> Inl err
         | Inr (still_going, p1) \<Rightarrow>
             (let p2 = p1\<lparr>events := events p1 @ [Display_refresh]\<rparr>
              in if \<not> still_going then restart ticks p2 else Inr p2))"

text \<open>The steps whose animator was ticked, and the steps that fired, in a record of events.\<close>

fun ticked :: "event list \<Rightarrow> nat list" where
  "ticked [] = []"
| "ticked (Tick_call i r # evs) = i # ticked evs"
| "ticked (ev # evs) = ticked evs"

fun fired :: "event list \<Rightarrow> nat list" where
  "fired [] = []"
| "fired (Animate_to_call i r # evs) = i # fired evs"
| "fired (Palette_broadcast i # evs) = i # fired evs"
| "fired (ev # evs) = fired evs"

text \<open>
  The two tests of the loop body, for the statements below: line 631,
  \<^verbatim>\<open>now - start_time >= step["start_time"]\<close>, and line 655, \<^verbatim>\<open>"animator" in step\<close>
  (the animation steps are the ones that have the key).
\<close>

definition due :: "real \<Rightarrow> program \<Rightarrow> nat \<Rightarrow> bool" where
  "due now p i = (now - loop_start_time p \<ge> step_start_time (steps p ! i))"

definition has_animator :: "step \<Rightarrow> bool" where
  "has_animator s = (case step_type s of Animation_step m \<Rightarrow> True | Change_palette n \<Rightarrow> False)"

section \<open>Sample states\<close>

text \<open>
  States on which the theorems below are tried: an element, an animator half way through
  a move from \<open>(0, 0)\<close> to \<open>(0, 100)\<close> whose sprite cycle is at its last frame, and
  a new animator with a sprite cycle from 0 to 3 armed.
\<close>

definition sample_elem :: elem where
  "sample_elem = \<lparr>el_x = 0, el_y = 40, el_frame = 2, pixel_shader = []\<rparr>"

definition flying :: animator where
  "flying =
     (init_animator 0)\<lparr>pos_animating := True, start_time := 0, start_x := 0, start_y := 0,
       target_x := 0, target_y := 100, overshoot_x := 0, overshoot_y := 120,
       duration := 1, overshoot_pixels := 20, cur_sprite_index := Some 3,
       last_sprite_frame_time := 1 / 4, sprite_anim_start_time := 1 / 10,
       sprite_anim_from_index := Some 0, sprite_anim_to_index := Some 3,
       sprite_anim_delay := Some (1 / 10)\<rparr>"

definition armed_0_3 :: animator where
  "armed_0_3 =
     (init_animator 0)\<lparr>cur_sprite_index := Some 0, sprite_anim_from_index := Some 0,
       sprite_anim_to_index := Some 3, sprite_anim_delay := Some (1 / 2)\<rparr>"

text \<open>
  A timeline in the shape of the one in the source, cut down to five steps: an element
  with a sprite cycle (tile grid 0), a letter (tile grid 1), the sliding group (tile
  grid 2, no palettes, no sprite cycle), a palette change, and a last step, added after
  the setup loop and so without palettes, that cycles the frames of tile grid 0 in
  place. The elements start at their off-screen positions with their default palettes,
  as the setup loop leaves them.
\<close>

definition sample_move :: animation_step where
  "sample_move =
     \<lparr>tilegrid = 0, animator = 0, offscreen_loc = (0, - 107), onscreen_loc = (0, 21),
      move_duration = 9 / 20, step_overshoot_pixels = 1, step_eased_value = None,
      sprite_anim_range = Some (0, 11), sprite_delay = Some (1 / 42),
      sprite_anim_start = Some (347 / 1000),
      palettes = [(''default_palette'', [1, 2]), (''red_palette'', [1, 0])]\<rparr>"

definition sample_steps :: "step list" where
  "sample_steps =
     [\<lparr>step_start_time = 0, started = False, step_type = Animation_step sample_move\<rparr>,
      \<lparr>step_start_time = 9 / 20, started = False,
       step_type = Animation_step
         (sample_move\<lparr>tilegrid := 1, animator := 1, offscreen_loc := (83, 240),
            onscreen_loc := (83, 50), step_overshoot_pixels := 20,
            palettes := [(''default_palette'', [3, 4]), (''red_palette'', [3, 0])]\<rparr>)\<rparr>,
      \<lparr>step_start_time = 9 / 10, started = False,
       step_type = Animation_step
         (sample_move\<lparr>tilegrid := 2, animator := 2, offscreen_loc := (100, 0),
            onscreen_loc := (30, 0), move_duration := 7 / 4, step_overshoot_pixels := 0,
            step_eased_value := Some 1, sprite_anim_range := None, sprite_delay := None,
            sprite_anim_start := None, palettes := []\<rparr>)\<rparr>,
      \<lparr>step_start_time = 19 / 4, started = False,
       step_type = Change_palette ''red_palette''\<rparr>,
      \<lparr>step_start_time = 25 / 4, started = False,
       step_type = Animation_step
         (sample_move\<lparr>move_duration := 1 / 100, step_overshoot_pixels := 0,
            sprite_anim_range := Some (12, 27), sprite_delay := Some (1 / 32),
            sprite_anim_start := Some 0, palettes := []\<rparr>)\<rparr>]"

definition sample_elements :: "nat \<Rightarrow> elem" where
  "sample_elements k =
     (if k = 0 then \<lparr>el_x = 0, el_y = - 107, el_frame = 0, pixel_shader = [1, 2]\<rparr>
      else if k = 1 then \<lparr>el_x = 83, el_y = 240, el_frame = 0, pixel_shader = [3, 4]\<rparr>
      else \<lparr>el_x = 100, el_y = 0, el_frame = 0, pixel_shader = []\<rparr>)"

definition sample_program :: program where
  "sample_program =
     \<lparr>steps = sample_steps, animators = init_animator, elements = sample_elements,
      loop_start_time = 0, clock_reads = 0, events = []\<rparr>"

text \<open>
  The same timeline at the end of the show: every step has fired, the elements are on
  screen with their red palettes and every animator is idle.
\<close>

definition sample_shown :: "nat \<Rightarrow> elem" where
  "sample_shown k =
     (if k = 0 then \<lparr>el_x = 0, el_y = 21, el_frame = 27, pixel_shader = [1, 0]\<rparr>
      else if k = 1 then \<lparr>el_x = 83, el_y = 50, el_frame = 15, pixel_shader = [3, 0]\<rparr>
      else \<lparr>el_x = 30, el_y = 0, el_frame = 0, pixel_shader = []\<rparr>)"

definition sample_finished :: program where
  "sample_finished =
     sample_program\<lparr>steps := map (\<lambda>s. s\<lparr>started := True\<rparr>) sample_steps,
       elements := sample_shown\<rparr>"

section \<open>Properties of animate_to\<close>

text \<open>
  C1 (as amended). A call of \<^verbatim>\<open>animate_to\<close> whose target is the element's current
  position returns \<^verbatim>\<open>False\<close> and arms no position motion: \<open>pos_animating\<close>,
  \<open>overshoot_x\<close>, \<open>overshoot_y\<close>, \<open>eased_value\<close> and \<open>last_sprite_frame_time\<close> keep
  their values. The fields stored before the distance test are overwritten all the same:
  the start position and time, the target, the duration and \<open>overshoot_pixels\<close>; and
  when \<^verbatim>\<open>start_sprite_anim_at\<close> is given, the sprite sub-animation is armed as in
  any other call. (The last two steps of the timeline use this: they cycle the frames
  of an element that is already in place.)
\<close>

theorem animate_to_at_target:
  "fst (animate_to now (el_x e) (el_y e) args a e) = False \<and>
   (let a' = snd (animate_to now (el_x e) (el_y e) args a e)
    in pos_animating a' = pos_animating a \<and>
       overshoot_x a' = overshoot_x a \<and> overshoot_y a' = overshoot_y a \<and>
       eased_value a' = eased_value a \<and>
       last_sprite_frame_time a' = last_sprite_frame_time a \<and>
       element a' = element a \<and>
       start_x a' = el_x e \<and> start_y a' = el_y e \<and> start_time a' = now \<and>
       target_x a' = el_x e \<and> target_y a' = el_y e \<and>
       duration a' = arg_duration args \<and>
       overshoot_pixels a' = arg_overshoot_pixels args \<and>
       (case arg_start_sprite_anim_at args of
          None \<Rightarrow>
            cur_sprite_index a' = cur_sprite_index a \<and>
            sprite_anim_start_time a' = sprite_anim_start_time a \<and>
            sprite_anim_from_index a' = sprite_anim_from_index a \<and>
            sprite_anim_to_index a' = sprite_anim_to_index a \<and>
            sprite_anim_delay a' = sprite_anim_delay a
        | Some off \<Rightarrow>
            cur_sprite_index a' = arg_sprite_from_index args \<and>
            sprite_anim_start_time a' = now + off \<and>
            sprite_anim_from_index a' = arg_sprite_from_index args \<and>
            sprite_anim_to_index a' = arg_sprite_to_index args \<and>
            sprite_anim_delay a' = arg_sprite_delay args))"
  by (simp add: animate_to_def Let_def split: option.split)

text \<open>
  C1 as stated fails: a new animator whose element is at \<open>(5, 5)\<close>, sent to \<open>(5, 5)\<close>
  at clock value 3 with a sprite cycle from 0 to 3, returns \<^verbatim>\<open>False\<close> with its start
  time, start position, target, duration and \<open>overshoot_pixels\<close> changed and the
  sprite cycle armed.
\<close>

theorem animate_to_at_target_changes_state:
  "animate_to 3 5 5
     (default_args\<lparr>arg_start_sprite_anim_at := Some 0, arg_sprite_from_index := Some 0,
        arg_sprite_to_index := Some 3\<rparr>)
     (init_animator 0) \<lparr>el_x = 5, el_y = 5, el_frame = 0, pixel_shader = []\<rparr>
   = (False,
      \<lparr>element = 0, pos_animating = False, start_time = 3, start_x = 5, start_y = 5,
       target_x = 5, target_y = 5, overshoot_x = 0, overshoot_y = 0, duration = 1,
       overshoot_pixels = 20, eased_value = None, cur_sprite_index = Some 0,
       last_sprite_frame_time = - 1, sprite_anim_start_time = 3,
       sprite_anim_from_index = Some 0, sprite_anim_to_index = Some 3,
       sprite_anim_delay = Some (1 / 60)\<rparr>) \<and>
   start_time (init_animator 0) \<noteq> 3 \<and> duration (init_animator 0) \<noteq> 1 \<and>
   cur_sprite_index (init_animator 0) \<noteq> Some 0"
  by (simp add: animate_to_def init_animator_def default_args_def)

section \<open>Properties of the sprite sub-animation\<close>

lemma sprite_anim_tick_due:
  assumes "cur_sprite_index a = Some i" "sprite_anim_delay a = Some d"
    and "sprite_anim_to_index a = Some t" "last_sprite_frame_time a + d \<le> now"
  shows "sprite_anim_tick now a e =
           (if t < i + 1 then
              Inr (False,
                   a\<lparr>cur_sprite_index := None, last_sprite_frame_time := - 1,
                     sprite_anim_start_time := - 1, sprite_anim_from_index := None,
                     sprite_anim_to_index := None, sprite_anim_delay := None\<rparr>,
                   e\<lparr>el_frame := i\<rparr>)
            else
              Inr (True,
                   a\<lparr>cur_sprite_index := Some (i + 1), last_sprite_frame_time := now\<rparr>,
                   e\<lparr>el_frame := i\<rparr>))"
  using assms by (simp add: sprite_anim_tick_def Let_def)


lemma sprite_anim_tick_position:
  assumes "sprite_anim_tick now a e = Inr (r, a', e')"
  shows "el_x e' = el_x e \<and> el_y e' = el_y e \<and> pixel_shader e' = pixel_shader e \<and>
         pos_animating a' = pos_animating a \<and> start_time a' = start_time a \<and>
         duration a' = duration a \<and> target_x a' = target_x a \<and> target_y a' = target_y a \<and>
         start_x a' = start_x a \<and> start_y a' = start_y a \<and>
         overshoot_x a' = overshoot_x a \<and> overshoot_y a' = overshoot_y a \<and>
         overshoot_pixels a' = overshoot_pixels a \<and> eased_value a' = eased_value a \<and>
         element a' = element a"
  using assms
  by (auto simp: sprite_anim_tick_def Let_def split: option.splits if_splits)

text \<open>
  C7. For an armed sprite sub-animation, a sub-tick at a time \<open>now\<close> with
  \<open>now \<ge> last_sprite_frame_time + sprite_anim_delay\<close> writes \<open>cur_sprite_index\<close> to
  the element's frame index, and then either (the incremented index is beyond
  \<open>sprite_anim_to_index\<close>) resets every sprite field to its idle value and returns
  \<^verbatim>\<open>False\<close>, or stores the incremented index and \<open>now\<close> and returns \<^verbatim>\<open>True\<close>.
  Hence a cycle from 0 to 3, ticked four times with the delay elapsed each time, writes
  the frames 0, 1, 2, 3 and reports the end on the fourth sub-tick, with all sprite
  fields idle.
\<close>

theorem sprite_anim_tick_cycle:
  assumes "cur_sprite_index a = Some i" "sprite_anim_delay a = Some d"
    and "sprite_anim_to_index a = Some t" "last_sprite_frame_time a + d \<le> now"
  shows "sprite_anim_tick now a e =
           (if t < i + 1 then
              Inr (False,
                   a\<lparr>cur_sprite_index := None, last_sprite_frame_time := - 1,
                     sprite_anim_start_time := - 1, sprite_anim_from_index := None,
                     sprite_anim_to_index := None, sprite_anim_delay := None\<rparr>,
                   e\<lparr>el_frame := i\<rparr>)
            else
              Inr (True,
                   a\<lparr>cur_sprite_index := Some (i + 1), last_sprite_frame_time := now\<rparr>,
                   e\<lparr>el_frame := i\<rparr>)) \<and>
         (i = 0 \<and> t = 3 \<and> now + d \<le> ta \<and> ta + d \<le> tb \<and> tb + d \<le> tc \<longrightarrow>
            (\<exists>rs. call_at_times sprite_anim_tick [now, ta, tb, tc] a e = Inr rs \<and>
                  map fst rs = [True, True, True, False] \<and>
                  map (\<lambda>r. el_frame (snd (snd r))) rs = [0, 1, 2, 3] \<and>
                  (let a' = fst (snd (last rs))
                   in cur_sprite_index a' = None \<and> sprite_anim_from_index a' = None \<and>
                      sprite_anim_to_index a' = None \<and> sprite_anim_delay a' = None \<and>
                      last_sprite_frame_time a' = - 1 \<and> sprite_anim_start_time a' = - 1)))"
proof (intro conjI impI)
  show "sprite_anim_tick now a e =
           (if t < i + 1 then
              Inr (False,
                   a\<lparr>cur_sprite_index := None, last_sprite_frame_time := - 1,
                     sprite_anim_start_time := - 1, sprite_anim_from_index := None,
                     sprite_anim_to_index := None, sprite_anim_delay := None\<rparr>,
                   e\<lparr>el_frame := i\<rparr>)
            else
              Inr (True,
                   a\<lparr>cur_sprite_index := Some (i + 1), last_sprite_frame_time := now\<rparr>,
                   e\<lparr>el_frame := i\<rparr>))"
    using assms by (rule sprite_anim_tick_due)
next
  assume sc: "i = 0 \<and> t = 3 \<and> now + d \<le> ta \<and> ta + d \<le> tb \<and> tb + d \<le> tc"
  define a1 where "a1 = a\<lparr>cur_sprite_index := Some 1, last_sprite_frame_time := now\<rparr>"
  define a2 where "a2 = a1\<lparr>cur_sprite_index := Some 2, last_sprite_frame_time := ta\<rparr>"
  define a3 where "a3 = a2\<lparr>cur_sprite_index := Some 3, last_sprite_frame_time := tb\<rparr>"
  define a4 where "a4 = a3\<lparr>cur_sprite_index := None, last_sprite_frame_time := - 1,
                     sprite_anim_start_time := - 1, sprite_anim_from_index := None,
                     sprite_anim_to_index := None, sprite_anim_delay := None\<rparr>"
  have s1: "sprite_anim_tick now a e = Inr (True, a1, e\<lparr>el_frame := 0\<rparr>)"
    using sprite_anim_tick_due [OF assms, of e] sc by (simp add: a1_def)
  have s2: "sprite_anim_tick ta a1 (e\<lparr>el_frame := 0\<rparr>) = Inr (True, a2, e\<lparr>el_frame := 1\<rparr>)"
    using sprite_anim_tick_due [of a1 1 d 3 ta "e\<lparr>el_frame := 0\<rparr>"] assms sc
    by (simp add: a1_def a2_def)
  have s3: "sprite_anim_tick tb a2 (e\<lparr>el_frame := 1\<rparr>) = Inr (True, a3, e\<lparr>el_frame := 2\<rparr>)"
    using sprite_anim_tick_due [of a2 2 d 3 tb "e\<lparr>el_frame := 1\<rparr>"] assms sc
    by (simp add: a1_def a2_def a3_def)
  have s4: "sprite_anim_tick tc a3 (e\<lparr>el_frame := 2\<rparr>) = Inr (False, a4, e\<lparr>el_frame := 3\<rparr>)"
    using sprite_anim_tick_due [of a3 3 d 3 tc "e\<lparr>el_frame := 2\<rparr>"] assms sc
    by (simp add: a1_def a2_def a3_def a4_def)
  have run: "call_at_times sprite_anim_tick [now, ta, tb, tc] a e =
         Inr [(True, a1, e\<lparr>el_frame := 0\<rparr>), (True, a2, e\<lparr>el_frame := 1\<rparr>),
              (True, a3, e\<lparr>el_frame := 2\<rparr>), (False, a4, e\<lparr>el_frame := 3\<rparr>)]"
    by (simp add: s1 s2 s3 s4)
  show "\<exists>rs. call_at_times sprite_anim_tick [now, ta, tb, tc] a e = Inr rs \<and>
                  map fst rs = [True, True, True, False] \<and>
                  map (\<lambda>r. el_frame (snd (snd r))) rs = [0, 1, 2, 3] \<and>
                  (let a' = fst (snd (last rs))
                   in cur_sprite_index a' = None \<and> sprite_anim_from_index a' = None \<and>
                      sprite_anim_to_index a' = None \<and> sprite_anim_delay a' = None \<and>
                      last_sprite_frame_time a' = - 1 \<and> sprite_anim_start_time a' = - 1)"
    unfolding run by (simp add: a4_def)
qed

theorem sprite_anim_tick_cycle_witness:
  "sprite_anim_tick 0 armed_0_3 sample_elem =
     Inr (True, armed_0_3\<lparr>cur_sprite_index := Some 1, last_sprite_frame_time := 0\<rparr>,
          sample_elem\<lparr>el_frame := 0\<rparr>) \<and>
   (\<exists>rs. call_at_times sprite_anim_tick [0, 1, 2, 3] armed_0_3 sample_elem = Inr rs \<and>
         map fst rs = [True, True, True, False] \<and>
         map (\<lambda>r. el_frame (snd (snd r))) rs = [0, 1, 2, 3] \<and>
         (let a' = fst (snd (last rs))
          in cur_sprite_index a' = None \<and> sprite_anim_from_index a' = None \<and>
             sprite_anim_to_index a' = None \<and> sprite_anim_delay a' = None \<and>
             last_sprite_frame_time a' = - 1 \<and> sprite_anim_start_time a' = - 1))"
proof -
  have h: "cur_sprite_index armed_0_3 = Some 0" "sprite_anim_delay armed_0_3 = Some (1 / 2)"
    "sprite_anim_to_index armed_0_3 = Some 3"
    "last_sprite_frame_time armed_0_3 + 1 / 2 \<le> 0"
    by (simp_all add: armed_0_3_def init_animator_def)
  have pre: "(0::int) = 0 \<and> (3::int) = 3 \<and> (0::real) + 1 / 2 \<le> 1 \<and>
             (1::real) + 1 / 2 \<le> 2 \<and> (2::real) + 1 / 2 \<le> 3"
    by simp
  note inst = sprite_anim_tick_cycle [OF h, where e = sample_elem and ta = 1 and tb = 2
      and tc = 3]
  have first: "sprite_anim_tick 0 armed_0_3 sample_elem =
     Inr (True, armed_0_3\<lparr>cur_sprite_index := Some 1, last_sprite_frame_time := 0\<rparr>,
          sample_elem\<lparr>el_frame := 0\<rparr>)"
    using conjunct1 [OF inst] by simp
  show ?thesis
    using first mp [OF conjunct2 [OF inst] pre] by (rule conjI)
qed

section \<open>Properties of tick\<close>

lemma tick_sprite_part_position:
  assumes "tick_sprite_part now a e = Inr (ret, still, a1, e1)"
  shows "el_x e1 = el_x e \<and> el_y e1 = el_y e \<and> pixel_shader e1 = pixel_shader e \<and>
         pos_animating a1 = pos_animating a \<and> start_time a1 = start_time a \<and>
         duration a1 = duration a \<and> target_x a1 = target_x a \<and> target_y a1 = target_y a \<and>
         start_x a1 = start_x a \<and> start_y a1 = start_y a \<and>
         overshoot_x a1 = overshoot_x a \<and> overshoot_y a1 = overshoot_y a \<and>
         overshoot_pixels a1 = overshoot_pixels a \<and> eased_value a1 = eased_value a \<and>
         element a1 = element a"
proof (cases "cur_sprite_index a \<noteq> None \<and> sprite_anim_start_time a \<le> now")
  case True
  show ?thesis
  proof (cases "sprite_anim_tick now a e")
    case (Inl err)
    with True assms show ?thesis by (simp add: tick_sprite_part_def)
  next
    case (Inr res)
    obtain r a2 e2 where res: "res = (r, a2, e2)" by (cases res) auto
    have "a1 = a2 \<and> e1 = e2"
      using True assms Inr res by (cases r) (simp_all add: tick_sprite_part_def)
    then have "sprite_anim_tick now a e = Inr (r, a1, e1)"
      using Inr res by simp
    then show ?thesis by (rule sprite_anim_tick_position)
  qed
next
  case False
  then have "a1 = a \<and> e1 = e"
    using assms by (cases "cur_sprite_index a = None"; cases "pos_animating a")
      (simp_all add: tick_sprite_part_def)
  then show ?thesis by simp
qed

lemma tick_sprite_part_still:
  assumes "tick_sprite_part now a e = Inr (None, still, a1, e1)"
  shows "still \<longleftrightarrow> cur_sprite_index a \<noteq> None \<and> sprite_anim_start_time a \<le> now"
  using assms
  by (auto simp: tick_sprite_part_def split: sum.splits if_splits)

lemma tick_position_part_complete:
  assumes "duration a \<noteq> 0" "1 \<le> (now - start_time a) / duration a"
  shows "tick_position_part now still a e =
           Inr (still, a\<lparr>pos_animating := False\<rparr>,
                e\<lparr>el_x := target_x a, el_y := target_y a\<rparr>)"
  using assms by (simp add: tick_position_part_def Let_def)

lemma tick_position_part_sprite:
  assumes "tick_position_part now still a e = Inr (r, a', e')"
  shows "el_frame e' = el_frame e \<and> (a' = a \<or> a' = a\<lparr>pos_animating := False\<rparr>)"
proof (cases "duration a = 0")
  case True
  then show ?thesis using assms by (simp add: tick_position_part_def)
next
  case nz: False
  show ?thesis
  proof (cases "1 \<le> (now - start_time a) / duration a")
    case True
    then show ?thesis
      using assms nz by (simp add: tick_position_part_complete) auto
  next
    case False
    then obtain cx cy where "current_position ((now - start_time a) / duration a) a = Inr (cx, cy)"
      and "a' = a" and "e' = e\<lparr>el_x := py_int cx, el_y := py_int cy\<rparr>"
      using assms nz
      by (cases "current_position ((now - start_time a) / duration a) a")
         (auto simp: tick_position_part_def Let_def)
    then show ?thesis by simp
  qed
qed

text \<open>
  C4. When the armed sprite sub-animation finishes in a call of \<^verbatim>\<open>tick\<close> (its fire
  time is reached, the frame delay has elapsed and the incremented index is beyond
  \<open>sprite_anim_to_index\<close>), the call returns \<^verbatim>\<open>False\<close> at once: the last frame is
  written, the position of the element and \<open>pos_animating\<close> are as before, whether or
  not a position motion is in progress.
\<close>

theorem tick_sprite_finished:
  assumes "cur_sprite_index a = Some i" "sprite_anim_start_time a \<le> now"
    and "sprite_anim_delay a = Some d" "last_sprite_frame_time a + d \<le> now"
    and "sprite_anim_to_index a = Some t" "t < i + 1"
  shows "\<exists>a' e'. tick now a e = Inr (False, a', e') \<and>
           el_x e' = el_x e \<and> el_y e' = el_y e \<and> el_frame e' = i \<and>
           pos_animating a' = pos_animating a \<and> cur_sprite_index a' = None"
proof -
  have "sprite_anim_tick now a e =
          Inr (False,
               a\<lparr>cur_sprite_index := None, last_sprite_frame_time := - 1,
                 sprite_anim_start_time := - 1, sprite_anim_from_index := None,
                 sprite_anim_to_index := None, sprite_anim_delay := None\<rparr>,
               e\<lparr>el_frame := i\<rparr>)"
    using sprite_anim_tick_due [OF assms(1,3,5,4), of e] assms(6) by simp
  then have "tick now a e =
          Inr (False,
               a\<lparr>cur_sprite_index := None, last_sprite_frame_time := - 1,
                 sprite_anim_start_time := - 1, sprite_anim_from_index := None,
                 sprite_anim_to_index := None, sprite_anim_delay := None\<rparr>,
               e\<lparr>el_frame := i\<rparr>)"
    using assms(1,2) by (simp add: tick_def tick_sprite_part_def)
  then show ?thesis by simp
qed

theorem tick_sprite_finished_witness:
  "pos_animating flying \<and> (1 / 2 - start_time flying) / duration flying < 1 \<and>
   (\<exists>a' e'. tick (1 / 2) flying sample_elem = Inr (False, a', e') \<and>
      el_x e' = 0 \<and> el_y e' = 40 \<and> el_frame e' = 3 \<and>
      pos_animating a' \<and> cur_sprite_index a' = None)"
proof -
  have h: "cur_sprite_index flying = Some 3" "sprite_anim_start_time flying \<le> 1 / 2"
    "sprite_anim_delay flying = Some (1 / 10)"
    "last_sprite_frame_time flying + 1 / 10 \<le> 1 / 2"
    "sprite_anim_to_index flying = Some 3" "(3::int) < 3 + 1"
    by (simp_all add: flying_def init_animator_def)
  have g: "pos_animating flying" "(1 / 2 - start_time flying) / duration flying < 1"
    "el_x sample_elem = 0" "el_y sample_elem = 40"
    by (simp_all add: flying_def init_animator_def sample_elem_def)
  show ?thesis
    using tick_sprite_finished [OF h, of sample_elem] g by simp
qed

text \<open>
  C5. A call of \<^verbatim>\<open>tick\<close> that reaches the position handling (no early return, with
  \<^verbatim>\<open>still_sprite_animating\<close> equal to \<open>still\<close>) with a progress of at least 1 leaves
  the element exactly at \<open>(target_x, target_y)\<close>, clears \<open>pos_animating\<close> and returns
  \<open>still\<close>: \<^verbatim>\<open>True\<close> exactly when the sprite sub-animation was ticked in this call and
  is still running.
\<close>

theorem tick_completion_snap:
  assumes "tick_sprite_part now a e = Inr (None, still, a1, e1)"
    and "duration a \<noteq> 0" "1 \<le> (now - start_time a) / duration a"
  shows "\<exists>a' e'. tick now a e = Inr (still, a', e') \<and>
           el_x e' = target_x a \<and> el_y e' = target_y a \<and> \<not> pos_animating a' \<and>
           (still \<longleftrightarrow> cur_sprite_index a \<noteq> None \<and> sprite_anim_start_time a \<le> now)"
proof -
  have f: "duration a1 = duration a" "start_time a1 = start_time a"
    "target_x a1 = target_x a" "target_y a1 = target_y a"
    using tick_sprite_part_position [OF assms(1)] by simp_all
  have "tick now a e = tick_position_part now still a1 e1"
    using assms(1) by (simp add: tick_def)
  also have "\<dots> = Inr (still, a1\<lparr>pos_animating := False\<rparr>,
                e1\<lparr>el_x := target_x a1, el_y := target_y a1\<rparr>)"
  proof (rule tick_position_part_complete)
    from assms(2) f show "duration a1 \<noteq> 0" by simp
    from assms(3) f show "1 \<le> (now - start_time a1) / duration a1" by simp
  qed
  finally show ?thesis
    using f tick_sprite_part_still [OF assms(1)] by simp
qed

theorem tick_completion_snap_witness:
  "duration (flying\<lparr>cur_sprite_index := Some 1\<rparr>) \<noteq> 0 \<and>
   1 \<le> (3 / 2 - start_time (flying\<lparr>cur_sprite_index := Some 1\<rparr>))
          / duration (flying\<lparr>cur_sprite_index := Some 1\<rparr>) \<and>
   (\<exists>a' e'. tick (3 / 2) (flying\<lparr>cur_sprite_index := Some 1\<rparr>) sample_elem
               = Inr (True, a', e') \<and>
            el_x e' = 0 \<and> el_y e' = 100 \<and> \<not> pos_animating a')"
proof -
  let ?a = "flying\<lparr>cur_sprite_index := Some 1\<rparr>"
  have sp: "tick_sprite_part (3 / 2) ?a sample_elem =
              Inr (None, True,
                   ?a\<lparr>cur_sprite_index := Some 2, last_sprite_frame_time := 3 / 2\<rparr>,
                   sample_elem\<lparr>el_frame := 1\<rparr>)"
    by (simp add: tick_sprite_part_def sprite_anim_tick_def flying_def init_animator_def)
  have h: "duration ?a \<noteq> 0" "1 \<le> (3 / 2 - start_time ?a) / duration ?a"
    by (simp_all add: flying_def init_animator_def)
  have g: "target_x ?a = 0" "target_y ?a = 100"
    by (simp_all add: flying_def init_animator_def)
  show ?thesis
    using tick_completion_snap [OF sp h] h g by auto
qed

text \<open>
  C10. While a sprite sub-animation is armed and its fire time is not reached, a call
  of \<^verbatim>\<open>tick\<close> that returns leaves the frame index and every sprite field as they
  were; if the progress of the position motion is at least 1, the call snaps the
  element to the target and returns \<^verbatim>\<open>False\<close>, the sprite fields still armed; and a
  later call, once the fire time and the frame delay have passed, writes the first
  frame of the cycle.
\<close>

theorem tick_sprite_pending:
  assumes "cur_sprite_index a = Some i" "now < sprite_anim_start_time a"
  shows "(\<forall>r a' e'. tick now a e = Inr (r, a', e') \<longrightarrow>
            el_frame e' = el_frame e \<and>
            cur_sprite_index a' = cur_sprite_index a \<and>
            last_sprite_frame_time a' = last_sprite_frame_time a \<and>
            sprite_anim_start_time a' = sprite_anim_start_time a \<and>
            sprite_anim_from_index a' = sprite_anim_from_index a \<and>
            sprite_anim_to_index a' = sprite_anim_to_index a \<and>
            sprite_anim_delay a' = sprite_anim_delay a) \<and>
         (duration a \<noteq> 0 \<and> 1 \<le> (now - start_time a) / duration a \<longrightarrow>
            tick now a e =
              Inr (False, a\<lparr>pos_animating := False\<rparr>,
                   e\<lparr>el_x := target_x a, el_y := target_y a\<rparr>)) \<and>
         (0 < duration a \<and> 1 \<le> (now - start_time a) / duration a \<and>
          sprite_anim_start_time a \<le> later \<and> sprite_anim_delay a = Some d \<and>
          last_sprite_frame_time a + d \<le> later \<and> sprite_anim_to_index a = Some t \<longrightarrow>
            (\<exists>r a' e'. tick later (a\<lparr>pos_animating := False\<rparr>)
                         (e\<lparr>el_x := target_x a, el_y := target_y a\<rparr>) = Inr (r, a', e') \<and>
                       el_frame e' = i \<and> (r \<longleftrightarrow> i + 1 \<le> t)))"
proof (intro conjI allI impI)
  have sp: "tick_sprite_part now a e = Inr (None, False, a, e)"
    using assms by (simp add: tick_sprite_part_def)
  have tk: "tick now a e = tick_position_part now False a e"
    by (simp add: tick_def sp)
  {
    fix r a' e'
    assume "tick now a e = Inr (r, a', e')"
    then have "tick_position_part now False a e = Inr (r, a', e')"
      by (simp add: tk)
    then have k: "el_frame e' = el_frame e \<and> (a' = a \<or> a' = a\<lparr>pos_animating := False\<rparr>)"
      by (rule tick_position_part_sprite)
    from k show "el_frame e' = el_frame e" by simp
    from k show "cur_sprite_index a' = cur_sprite_index a" by auto
    from k show "last_sprite_frame_time a' = last_sprite_frame_time a" by auto
    from k show "sprite_anim_start_time a' = sprite_anim_start_time a" by auto
    from k show "sprite_anim_from_index a' = sprite_anim_from_index a" by auto
    from k show "sprite_anim_to_index a' = sprite_anim_to_index a" by auto
    from k show "sprite_anim_delay a' = sprite_anim_delay a" by auto
  }
  {
    assume "duration a \<noteq> 0 \<and> 1 \<le> (now - start_time a) / duration a"
    then show "tick now a e =
              Inr (False, a\<lparr>pos_animating := False\<rparr>,
                   e\<lparr>el_x := target_x a, el_y := target_y a\<rparr>)"
      by (simp add: tk tick_position_part_complete)
  }
  {
    assume h: "0 < duration a \<and> 1 \<le> (now - start_time a) / duration a \<and>
          sprite_anim_start_time a \<le> later \<and> sprite_anim_delay a = Some d \<and>
          last_sprite_frame_time a + d \<le> later \<and> sprite_anim_to_index a = Some t"
    let ?a = "a\<lparr>pos_animating := False\<rparr>"
    let ?e = "e\<lparr>el_x := target_x a, el_y := target_y a\<rparr>"
    have late: "now \<le> later" using h assms(2) by simp
    from h have dpos: "0 < duration a" and p1: "1 \<le> (now - start_time a) / duration a"
      by simp_all
    have "duration a \<le> now - start_time a"
      using p1 dpos by (simp add: field_simps)
    then have prog: "1 \<le> (later - start_time a) / duration a"
      using dpos late by (simp add: field_simps)
    have st: "sprite_anim_tick later ?a ?e =
           (if t < i + 1 then
              Inr (False,
                   ?a\<lparr>cur_sprite_index := None, last_sprite_frame_time := - 1,
                     sprite_anim_start_time := - 1, sprite_anim_from_index := None,
                     sprite_anim_to_index := None, sprite_anim_delay := None\<rparr>,
                   ?e\<lparr>el_frame := i\<rparr>)
            else
              Inr (True,
                   ?a\<lparr>cur_sprite_index := Some (i + 1), last_sprite_frame_time := later\<rparr>,
                   ?e\<lparr>el_frame := i\<rparr>))"
    proof (rule sprite_anim_tick_due)
      show "cur_sprite_index ?a = Some i" using assms by simp
      show "sprite_anim_delay ?a = Some d" using h by simp
      show "sprite_anim_to_index ?a = Some t" using h by simp
      from h have "last_sprite_frame_time a + d \<le> later" by blast
      then show "last_sprite_frame_time ?a + d \<le> later" by simp
    qed
    show "\<exists>r a' e'. tick later ?a ?e = Inr (r, a', e') \<and> el_frame e' = i \<and> (r \<longleftrightarrow> i + 1 \<le> t)"
    proof (cases "t < i + 1")
      case True
      then have "tick later ?a ?e = Inr (False,
                   ?a\<lparr>cur_sprite_index := None, last_sprite_frame_time := - 1,
                     sprite_anim_start_time := - 1, sprite_anim_from_index := None,
                     sprite_anim_to_index := None, sprite_anim_delay := None\<rparr>,
                   ?e\<lparr>el_frame := i\<rparr>)"
        using assms h st by (simp add: tick_def tick_sprite_part_def)
      with True show ?thesis by (intro exI [of _ False] exI) auto
    next
      case False
      let ?a1 = "?a\<lparr>cur_sprite_index := Some (i + 1), last_sprite_frame_time := later\<rparr>"
      from False have "tick later ?a ?e = tick_position_part later True ?a1 (?e\<lparr>el_frame := i\<rparr>)"
        using assms h st by (simp add: tick_def tick_sprite_part_def)
      also have "\<dots> = Inr (True, ?a1\<lparr>pos_animating := False\<rparr>,
                (?e\<lparr>el_frame := i\<rparr>)\<lparr>el_x := target_x ?a1, el_y := target_y ?a1\<rparr>)"
      proof (rule tick_position_part_complete)
        from h show "duration ?a1 \<noteq> 0" by simp
        from prog show "1 \<le> (later - start_time ?a1) / duration ?a1" by simp
      qed
      finally show ?thesis using False by (intro exI [of _ True] exI) auto
    qed
  }
qed

theorem tick_sprite_pending_witness:
  "tick (3 / 2) (flying\<lparr>sprite_anim_start_time := 2\<rparr>) sample_elem =
     Inr (False, flying\<lparr>sprite_anim_start_time := 2, pos_animating := False\<rparr>,
          sample_elem\<lparr>el_x := 0, el_y := 100\<rparr>) \<and>
   cur_sprite_index (flying\<lparr>sprite_anim_start_time := 2\<rparr>) = Some 3 \<and>
   (\<exists>r a' e'. tick (5 / 2) (flying\<lparr>sprite_anim_start_time := 2, pos_animating := False\<rparr>)
                 (sample_elem\<lparr>el_x := 0, el_y := 100\<rparr>) = Inr (r, a', e') \<and>
              el_frame e' = 3 \<and> \<not> r)"
proof -
  let ?a = "flying\<lparr>sprite_anim_start_time := 2\<rparr>"
  have h: "cur_sprite_index ?a = Some 3" "3 / 2 < sprite_anim_start_time ?a"
    by (simp_all add: flying_def init_animator_def)
  have g: "duration ?a \<noteq> 0 \<and> 1 \<le> (3 / 2 - start_time ?a) / duration ?a"
    "0 < duration ?a \<and> 1 \<le> (3 / 2 - start_time ?a) / duration ?a \<and>
     sprite_anim_start_time ?a \<le> 5 / 2 \<and> sprite_anim_delay ?a = Some (1 / 10) \<and>
     last_sprite_frame_time ?a + 1 / 10 \<le> 5 / 2 \<and> sprite_anim_to_index ?a = Some 3"
    "target_x ?a = 0" "target_y ?a = 100"
    by (simp_all add: flying_def init_animator_def)
  show ?thesis
    using tick_sprite_pending [OF h, where e = sample_elem and later = "5 / 2"
        and d = "1 / 10" and t = 3] g h(1)
    by simp
qed

section \<open>The overshoot scenario\<close>

lemma phase1_half_way_bounds:
  "80 \<le> 120 * ((5 / 7 :: real) powr (6 / 5)) \<and> 120 * ((5 / 7 :: real) powr (6 / 5)) < 81"
proof -
  define x :: real where "x = (5 / 7) powr (6 / 5)"
  have pos: "0 \<le> x" by (simp add: x_def)
  have "x ^ 5 = ((5 / 7 :: real) powr (6 / 5)) powr 5"
    by (simp add: x_def)
  also have "\<dots> = (5 / 7 :: real) powr 6"
    by (simp add: powr_powr)
  also have "\<dots> = (5 / 7 :: real) ^ 6"
    by simp
  finally have x5: "x ^ 5 = (5 / 7) ^ 6" .
  have "(2 / 3 :: real) ^ 5 \<le> x ^ 5"
    unfolding x5 by (simp add: power_divide)
  then have lo: "2 / 3 \<le> x"
    using pos by (rule power_le_imp_le_base [where n = 4, simplified])
  have "x ^ 5 < (27 / 40 :: real) ^ 5"
    unfolding x5 by (simp add: power_divide)
  then have hi: "x < 27 / 40"
    by (rule power_less_imp_less_base) simp
  from lo hi show ?thesis
    unfolding x_def [symmetric] by simp
qed

lemma py_int_phase1_half_way: "py_int (120 * ((5 / 7 :: real) powr (6 / 5))) = 80"
proof -
  have "\<lfloor>120 * ((5 / 7 :: real) powr (6 / 5))\<rfloor> = 80"
    using phase1_half_way_bounds by (intro floor_unique) simp_all
  moreover have "0 \<le> 120 * ((5 / 7 :: real) powr (6 / 5))"
    by simp
  ultimately show ?thesis by (simp add: py_int_def)
qed

lemma animate_to_overshoot_scenario:
  "animate_to t0 0 100 default_args (init_animator k)
     \<lparr>el_x = 0, el_y = 0, el_frame = f, pixel_shader = p\<rparr> =
   (True,
    (init_animator k)\<lparr>pos_animating := True, start_time := t0, target_y := 100,
       overshoot_y := 120, duration := 1, overshoot_pixels := 20\<rparr>)"
proof -
  have "sqrt 10000 = sqrt (100\<^sup>2)" by simp
  then have sq: "sqrt 10000 = 100" by (simp only: real_sqrt_abs)
  show ?thesis
    by (simp add: animate_to_def default_args_def init_animator_def Let_def sq)
qed

lemma tick_overshoot_scenario:
  "tick (t0 + 1 / 2)
     ((init_animator k)\<lparr>pos_animating := True, start_time := t0, target_y := 100,
        overshoot_y := 120, duration := 1, overshoot_pixels := 20\<rparr>)
     \<lparr>el_x = 0, el_y = 0, el_frame = f, pixel_shader = p\<rparr> =
   Inr (True,
        (init_animator k)\<lparr>pos_animating := True, start_time := t0, target_y := 100,
           overshoot_y := 120, duration := 1, overshoot_pixels := 20\<rparr>,
        \<lparr>el_x = 0, el_y = 80, el_frame = f, pixel_shader = p\<rparr>)"
proof -
  let ?a = "(init_animator k)\<lparr>pos_animating := True, start_time := t0, target_y := 100,
        overshoot_y := 120, duration := 1, overshoot_pixels := 20\<rparr>"
  have cp: "current_position (1 / 2) ?a = Inr (0, 120 * ((5 / 7) powr (6 / 5)))"
    by (simp add: current_position_def init_animator_def Let_def)
  have z: "py_int 0 = 0" by (simp add: py_int_def)
  show ?thesis
    by (simp add: tick_def tick_sprite_part_def tick_position_part_def Let_def cp z
        py_int_phase1_half_way)
       (simp add: init_animator_def)
qed

text \<open>
  C3 (as amended). An element at \<open>(0, 0)\<close> is sent to \<open>(0, 100)\<close> by a new animator
  with the default duration 1 and the default overshoot of 20 pixels, at any clock
  value \<open>t0\<close>. The call returns \<^verbatim>\<open>True\<close> and the overshoot point is \<open>(0, 120)\<close>.
  At progress \<open>1/2\<close> phase 1 is active and \<^verbatim>\<open>tick\<close> writes the position \<open>(0, 80)\<close>,
  which is \<open>int (120 * (5/7) ** 1.2)\<close>: between the start and the target, short of
  the target.
\<close>

theorem overshoot_move_half_way:
  "(let e = \<lparr>el_x = 0, el_y = 0, el_frame = f, pixel_shader = p\<rparr>;
        res = animate_to t0 0 100 default_args (init_animator k) e;
        a = snd res
    in fst res \<and> overshoot_x a = 0 \<and> overshoot_y a = 120 \<and>
       (t0 + 1 / 2 - start_time a) / duration a = 1 / 2 \<and>
       tick (t0 + 1 / 2) a e = Inr (True, a, e\<lparr>el_x := 0, el_y := 80\<rparr>))"
  by (simp add: Let_def animate_to_overshoot_scenario tick_overshoot_scenario)
     (simp add: init_animator_def)

text \<open>
  C3 as stated fails: with \<open>t0 = 0\<close> the position written at progress \<open>1/2\<close> has
  \<open>y = 80\<close>, which is not beyond \<open>y = 100\<close>.
\<close>

theorem overshoot_move_half_way_short_of_target:
  "tick (1 / 2)
     (snd (animate_to 0 0 100 default_args (init_animator 0)
             \<lparr>el_x = 0, el_y = 0, el_frame = 0, pixel_shader = []\<rparr>))
     \<lparr>el_x = 0, el_y = 0, el_frame = 0, pixel_shader = []\<rparr> =
   Inr (True,
        snd (animate_to 0 0 100 default_args (init_animator 0)
               \<lparr>el_x = 0, el_y = 0, el_frame = 0, pixel_shader = []\<rparr>),
        \<lparr>el_x = 0, el_y = 80, el_frame = 0, pixel_shader = []\<rparr>) \<and>
   \<not> (100 :: int) < 80"
  using tick_overshoot_scenario [of 0 0 0 "[]"]
  by (simp add: animate_to_overshoot_scenario)

section \<open>The cadence of the sprite frames\<close>









section \<open>The palette broadcast\<close>

lemma set_palette_cases:
  assumes "set_palette name s els = Inr els1"
  shows "(\<exists>m pal. step_type s = Animation_step m \<and> map_of (palettes m) name = Some pal \<and>
            els1 = els(tilegrid m := (els (tilegrid m))\<lparr>pixel_shader := pal\<rparr>)) \<or>
         ((\<forall>m. step_type s = Animation_step m \<longrightarrow> map_of (palettes m) name = None) \<and>
            els1 = els)"
proof (cases "step_type s")
  case (Animation_step m)
  then show ?thesis
    using assms
    by (cases "map_of (palettes m) name")
       (simp_all add: set_palette_def split: if_splits)
next
  case (Change_palette n)
  then show ?thesis
    using assms by (simp add: set_palette_def split: if_splits)
qed

lemma set_palette_defined:
  assumes "name \<notin> set animation_step_keys" "name \<notin> set change_palette_keys"
  shows "\<exists>els1. set_palette name s els = Inr els1"
proof (cases "step_type s")
  case (Animation_step m)
  then show ?thesis
    using assms(1) by (cases "map_of (palettes m) name") (simp_all add: set_palette_def)
next
  case (Change_palette n)
  then show ?thesis
    using assms(2) by (simp add: set_palette_def)
qed

lemma change_palette_defined:
  assumes "name \<notin> set animation_step_keys" "name \<notin> set change_palette_keys"
  shows "\<exists>els'. change_palette name ss els = Inr els'"
proof (induction ss arbitrary: els)
  case Nil
  show ?case by simp
next
  case (Cons s ss)
  obtain els1 where "set_palette name s els = Inr els1"
    using set_palette_defined [OF assms] by blast
  with Cons.IH [of els1] show ?case by simp
qed

lemma change_palette_Cons:
  assumes "change_palette name (s # ss) els = Inr els'"
  obtains els1 where "set_palette name s els = Inr els1" "change_palette name ss els1 = Inr els'"
  using assms by (cases "set_palette name s els") simp_all

lemma change_palette_geometry:
  assumes "change_palette name ss els = Inr els'"
  shows "el_x (els' k) = el_x (els k) \<and> el_y (els' k) = el_y (els k) \<and>
         el_frame (els' k) = el_frame (els k)"
  using assms
proof (induction ss arbitrary: els)
  case Nil
  then show ?case by simp
next
  case (Cons s ss)
  from Cons.prems obtain els1 where s1: "set_palette name s els = Inr els1"
    and rest: "change_palette name ss els1 = Inr els'"
    by (rule change_palette_Cons)
  from set_palette_cases [OF s1]
  have "el_x (els1 k) = el_x (els k) \<and> el_y (els1 k) = el_y (els k) \<and>
        el_frame (els1 k) = el_frame (els k)"
    by auto
  with Cons.IH [OF rest] show ?case by simp
qed

lemma change_palette_untouched:
  assumes "change_palette name ss els = Inr els'"
    and "\<forall>s\<in>set ss. \<forall>m. step_type s = Animation_step m \<and> tilegrid m = k
           \<longrightarrow> map_of (palettes m) name = None"
  shows "els' k = els k"
  using assms
proof (induction ss arbitrary: els)
  case Nil
  then show ?case by simp
next
  case (Cons s ss)
  from Cons.prems(1) obtain els1 where s1: "set_palette name s els = Inr els1"
    and rest: "change_palette name ss els1 = Inr els'"
    by (rule change_palette_Cons)
  from set_palette_cases [OF s1] Cons.prems(2) have "els1 k = els k"
    by auto
  moreover have "els' k = els1 k"
    using Cons.IH [OF rest] Cons.prems(2) by simp
  ultimately show ?case by simp
qed

lemma change_palette_keeps:
  assumes "change_palette name ss els = Inr els'"
    and "pixel_shader (els k) = pal"
    and "\<forall>s\<in>set ss. \<forall>m. step_type s = Animation_step m \<and> tilegrid m = k
           \<longrightarrow> map_of (palettes m) name \<in> {None, Some pal}"
  shows "pixel_shader (els' k) = pal"
  using assms
proof (induction ss arbitrary: els)
  case Nil
  then show ?case by simp
next
  case (Cons s ss)
  from Cons.prems(1) obtain els1 where s1: "set_palette name s els = Inr els1"
    and rest: "change_palette name ss els1 = Inr els'"
    by (rule change_palette_Cons)
  from set_palette_cases [OF s1] Cons.prems(2,3) have "pixel_shader (els1 k) = pal"
    by auto
  then show ?case
    using Cons.IH [OF rest] Cons.prems(3) by simp
qed

lemma change_palette_append:
  "change_palette name (xs @ ys) els =
     (case change_palette name xs els of
        Inl err \<Rightarrow> Inl err
      | Inr els1 \<Rightarrow> change_palette name ys els1)"
  by (induction xs arbitrary: els) (simp_all split: sum.splits)

lemma change_palette_sets:
  assumes "change_palette name ss els = Inr els'"
    and "i < length ss" "step_type (ss ! i) = Animation_step m"
    and "map_of (palettes m) name = Some pal"
    and "\<forall>s\<in>set (drop (Suc i) ss). \<forall>m'. step_type s = Animation_step m' \<and>
           tilegrid m' = tilegrid m \<longrightarrow> map_of (palettes m') name \<in> {None, Some pal}"
  shows "pixel_shader (els' (tilegrid m)) = pal"
proof -
  have split: "ss = take i ss @ (ss ! i # drop (Suc i) ss)"
    using assms(2) by (simp add: id_take_nth_drop [symmetric])
  have whole: "change_palette name (take i ss @ (ss ! i # drop (Suc i) ss)) els = Inr els'"
    using assms(1) split by simp
  then obtain els1 where before: "change_palette name (take i ss) els = Inr els1"
    and after: "change_palette name (ss ! i # drop (Suc i) ss) els1 = Inr els'"
    by (cases "change_palette name (take i ss) els") (simp_all add: change_palette_append)
  from after obtain els2 where s2: "set_palette name (ss ! i) els1 = Inr els2"
    and rest: "change_palette name (drop (Suc i) ss) els2 = Inr els'"
    by (rule change_palette_Cons)
  from set_palette_cases [OF s2] assms(3,4)
  have "pixel_shader (els2 (tilegrid m)) = pal" by auto
  with rest show ?thesis
    using assms(5) by (rule change_palette_keeps)
qed

text \<open>
  C9. When a \<^verbatim>\<open>change_palette\<close> step fires with a palette name (a name that is not
  one of the fixed keys of the step dictionaries), the broadcast completes without an
  exception and changes nothing but palettes. For every step that has a variant
  registered under the name, the palette of its element is that variant afterwards,
  unless a later step on the same element registers a different one (the steps are
  served in list order). An element for which no step registers the name is left as
  it was; and when no step at all registers the name, nothing changes.
\<close>

theorem palette_broadcast:
  assumes "step_type step = Change_palette name"
    and "name \<notin> set animation_step_keys" "name \<notin> set change_palette_keys"
  shows "\<exists>els'. fire ticks i step p =
                  Inr (p\<lparr>elements := els', events := events p @ [Palette_broadcast i]\<rparr>) \<and>
           (\<forall>j m pal. j < length (steps p) \<and> step_type (steps p ! j) = Animation_step m \<and>
                map_of (palettes m) name = Some pal \<and>
                (\<forall>s\<in>set (drop (Suc j) (steps p)). \<forall>m'. step_type s = Animation_step m' \<and>
                    tilegrid m' = tilegrid m \<longrightarrow> map_of (palettes m') name \<in> {None, Some pal})
              \<longrightarrow> pixel_shader (els' (tilegrid m)) = pal) \<and>
           (\<forall>k. (\<forall>s\<in>set (steps p). \<forall>m. step_type s = Animation_step m \<and> tilegrid m = k
                    \<longrightarrow> map_of (palettes m) name = None)
              \<longrightarrow> els' k = elements p k) \<and>
           ((\<forall>s\<in>set (steps p). \<forall>m. step_type s = Animation_step m
                    \<longrightarrow> map_of (palettes m) name = None)
              \<longrightarrow> els' = elements p) \<and>
           (\<forall>k. el_x (els' k) = el_x (elements p k) \<and> el_y (els' k) = el_y (elements p k) \<and>
                el_frame (els' k) = el_frame (elements p k))"
proof -
  obtain els' where cp: "change_palette name (steps p) (elements p) = Inr els'"
    using change_palette_defined [OF assms(2,3)] by blast
  have "fire ticks i step p =
          Inr (p\<lparr>elements := els', events := events p @ [Palette_broadcast i]\<rparr>)"
    using assms(1) cp by (simp add: fire_def)
  moreover have "\<forall>j m pal. j < length (steps p) \<and> step_type (steps p ! j) = Animation_step m \<and>
                map_of (palettes m) name = Some pal \<and>
                (\<forall>s\<in>set (drop (Suc j) (steps p)). \<forall>m'. step_type s = Animation_step m' \<and>
                    tilegrid m' = tilegrid m \<longrightarrow> map_of (palettes m') name \<in> {None, Some pal})
              \<longrightarrow> pixel_shader (els' (tilegrid m)) = pal"
    using change_palette_sets [OF cp] by blast
  moreover have unt: "\<forall>k. (\<forall>s\<in>set (steps p). \<forall>m. step_type s = Animation_step m \<and> tilegrid m = k
                    \<longrightarrow> map_of (palettes m) name = None)
              \<longrightarrow> els' k = elements p k"
    using change_palette_untouched [OF cp] by blast
  moreover have "(\<forall>s\<in>set (steps p). \<forall>m. step_type s = Animation_step m
                    \<longrightarrow> map_of (palettes m) name = None)
              \<longrightarrow> els' = elements p"
  proof
    assume none: "\<forall>s\<in>set (steps p). \<forall>m. step_type s = Animation_step m
                    \<longrightarrow> map_of (palettes m) name = None"
    show "els' = elements p"
    proof
      fix k
      from none have "\<forall>s\<in>set (steps p). \<forall>m. step_type s = Animation_step m \<and> tilegrid m = k
                    \<longrightarrow> map_of (palettes m) name = None"
        by blast
      with unt show "els' k = elements p k" by blast
    qed
  qed
  moreover have "\<forall>k. el_x (els' k) = el_x (elements p k) \<and> el_y (els' k) = el_y (elements p k) \<and>
                el_frame (els' k) = el_frame (elements p k)"
    using change_palette_geometry [OF cp] by blast
  ultimately show ?thesis by blast
qed

theorem palette_broadcast_witness:
  "\<exists>els'. fire (\<lambda>n. 5) 3 (sample_steps ! 3) sample_program =
            Inr (sample_program\<lparr>elements := els',
                   events := events sample_program @ [Palette_broadcast 3]\<rparr>) \<and>
          pixel_shader (els' 0) = [1, 0] \<and> pixel_shader (els' 1) = [3, 0] \<and>
          els' 2 = sample_elements 2"
proof -
  have h: "step_type (sample_steps ! 3) = Change_palette ''red_palette''"
    "''red_palette'' \<notin> set animation_step_keys" "''red_palette'' \<notin> set change_palette_keys"
    by (simp_all add: sample_steps_def animation_step_keys_def change_palette_keys_def)
  from palette_broadcast [OF h, of "\<lambda>n. 5" 3 sample_program]
  obtain els' where f: "fire (\<lambda>n. 5) 3 (sample_steps ! 3) sample_program =
            Inr (sample_program\<lparr>elements := els',
                   events := events sample_program @ [Palette_broadcast 3]\<rparr>)"
    and sets: "\<And>j m pal. j < length (steps sample_program) \<and>
                step_type (steps sample_program ! j) = Animation_step m \<and>
                map_of (palettes m) ''red_palette'' = Some pal \<and>
                (\<forall>s\<in>set (drop (Suc j) (steps sample_program)). \<forall>m'.
                    step_type s = Animation_step m' \<and> tilegrid m' = tilegrid m \<longrightarrow>
                    map_of (palettes m') ''red_palette'' \<in> {None, Some pal})
              \<Longrightarrow> pixel_shader (els' (tilegrid m)) = pal"
    and untouched: "\<And>k. (\<forall>s\<in>set (steps sample_program). \<forall>m.
                    step_type s = Animation_step m \<and> tilegrid m = k
                    \<longrightarrow> map_of (palettes m) ''red_palette'' = None)
              \<Longrightarrow> els' k = elements sample_program k"
    by blast
  have "pixel_shader (els' (tilegrid sample_move)) = [1, 0]"
    by (rule sets [of 0]) (simp add: sample_program_def sample_steps_def sample_move_def)
  then have p0: "pixel_shader (els' 0) = [1, 0]"
    by (simp add: sample_move_def)
  have "pixel_shader (els' (tilegrid (sample_move\<lparr>tilegrid := 1, animator := 1,
            offscreen_loc := (83, 240), onscreen_loc := (83, 50), step_overshoot_pixels := 20,
            palettes := [(''default_palette'', [3, 4]), (''red_palette'', [3, 0])]\<rparr>))) = [3, 0]"
    by (rule sets [of 1]) (simp add: sample_program_def sample_steps_def sample_move_def)
  then have p1: "pixel_shader (els' 1) = [3, 0]"
    by simp
  have p2: "els' 2 = sample_elements 2"
    using untouched [of 2]
    by (simp add: sample_program_def sample_steps_def sample_move_def)
  from f p0 p1 p2 show ?thesis by blast
qed

section \<open>The restart\<close>

lemma reset_steps_Cons_fst:
  "fst (reset_steps (s # ss) els) =
     s\<lparr>started := False\<rparr> # fst (reset_steps ss (reset_step s els))"
  by (simp add: Let_def case_prod_beta)

lemma reset_steps_Cons_snd:
  "snd (reset_steps (s # ss) els) = snd (reset_steps ss (reset_step s els))"
  by (simp add: Let_def case_prod_beta)

lemma reset_steps_steps:
  "fst (reset_steps ss els) = map (\<lambda>s. s\<lparr>started := False\<rparr>) ss"
proof (induction ss arbitrary: els)
  case Nil
  show ?case by simp
next
  case (Cons s ss)
  show ?case
    unfolding reset_steps_Cons_fst using Cons.IH [of "reset_step s els"] by simp
qed

lemma reset_step_frame: "el_frame (reset_step s els k) = el_frame (els k)"
  by (cases "step_type s") (auto simp: reset_step_def Let_def split: option.splits)

lemma reset_steps_frame: "el_frame (snd (reset_steps ss els) k) = el_frame (els k)"
proof (induction ss arbitrary: els)
  case Nil
  show ?case by simp
next
  case (Cons s ss)
  show ?case
    unfolding reset_steps_Cons_snd using Cons.IH [of "reset_step s els"]
    by (simp add: reset_step_frame)
qed

lemma reset_step_other:
  assumes "\<forall>m. step_type s = Animation_step m \<longrightarrow> tilegrid m \<noteq> k"
  shows "reset_step s els k = els k"
  using assms
  by (cases "step_type s") (auto simp: reset_step_def Let_def split: option.splits)

lemma reset_step_position:
  assumes "step_type s = Animation_step m"
  shows "el_x (reset_step s els (tilegrid m)) = fst (offscreen_loc m) \<and>
         el_y (reset_step s els (tilegrid m)) = snd (offscreen_loc m)"
  using assms by (simp add: reset_step_def Let_def split: option.splits)

lemma reset_step_palette:
  assumes "step_type s = Animation_step m" "map_of (palettes m) ''default_palette'' = Some pal"
  shows "pixel_shader (reset_step s els (tilegrid m)) = pal"
  using assms by (simp add: reset_step_def Let_def)

lemma reset_step_palette_none:
  assumes "step_type s = Animation_step m" "map_of (palettes m) ''default_palette'' = None"
  shows "pixel_shader (reset_step s els k) = pixel_shader (els k)"
  using assms by (simp add: reset_step_def Let_def)

lemma reset_steps_position_keeps:
  assumes "el_x (els k) = x \<and> el_y (els k) = y"
    and "\<forall>s\<in>set ss. \<forall>m. step_type s = Animation_step m \<and> tilegrid m = k
           \<longrightarrow> offscreen_loc m = (x, y)"
  shows "el_x (snd (reset_steps ss els) k) = x \<and> el_y (snd (reset_steps ss els) k) = y"
  using assms
proof (induction ss arbitrary: els)
  case Nil
  then show ?case by simp
next
  case (Cons s ss)
  have step: "el_x (reset_step s els k) = x \<and> el_y (reset_step s els k) = y"
  proof (cases "\<exists>m. step_type s = Animation_step m \<and> tilegrid m = k")
    case True
    then obtain m where m: "step_type s = Animation_step m" "tilegrid m = k" by blast
    with Cons.prems(2) have "offscreen_loc m = (x, y)" by simp
    with reset_step_position [OF m(1), of els] m(2) show ?thesis by simp
  next
    case False
    then have "reset_step s els k = els k" by (intro reset_step_other) blast
    with Cons.prems(1) show ?thesis by simp
  qed
  have "el_x (snd (reset_steps ss (reset_step s els)) k) = x \<and>
        el_y (snd (reset_steps ss (reset_step s els)) k) = y"
    using step Cons.prems(2) by (intro Cons.IH) simp_all
  then show ?case by (simp only: reset_steps_Cons_snd)
qed

lemma reset_steps_palette_keeps:
  assumes "pixel_shader (els k) = pal"
    and "\<forall>s\<in>set ss. \<forall>m. step_type s = Animation_step m \<and> tilegrid m = k
           \<longrightarrow> map_of (palettes m) ''default_palette'' \<in> {None, Some pal}"
  shows "pixel_shader (snd (reset_steps ss els) k) = pal"
  using assms
proof (induction ss arbitrary: els)
  case Nil
  then show ?case by simp
next
  case (Cons s ss)
  have step: "pixel_shader (reset_step s els k) = pal"
  proof (cases "\<exists>m. step_type s = Animation_step m \<and> tilegrid m = k")
    case True
    then obtain m where m: "step_type s = Animation_step m" "tilegrid m = k" by blast
    with Cons.prems(2) have "map_of (palettes m) ''default_palette'' \<in> {None, Some pal}"
      by simp
    then show ?thesis
      using reset_step_palette [OF m(1), of pal els] reset_step_palette_none [OF m(1), of els k]
        m(2) Cons.prems(1)
      by auto
  next
    case False
    then have "reset_step s els k = els k" by (intro reset_step_other) blast
    with Cons.prems(1) show ?thesis by simp
  qed
  have "pixel_shader (snd (reset_steps ss (reset_step s els)) k) = pal"
    using step Cons.prems(2) by (intro Cons.IH) simp_all
  then show ?case by (simp only: reset_steps_Cons_snd)
qed

lemma reset_steps_append:
  "snd (reset_steps (xs @ ys) els) = snd (reset_steps ys (snd (reset_steps xs els)))"
proof (induction xs arbitrary: els)
  case Nil
  show ?case by simp
next
  case (Cons x xs)
  show ?case
    using Cons.IH [of "reset_step x els"]
    by (simp only: append_Cons reset_steps_Cons_snd)
qed

lemma reset_steps_position:
  assumes "i < length ss" "step_type (ss ! i) = Animation_step m"
    and "\<forall>s\<in>set (drop (Suc i) ss). \<forall>m'. step_type s = Animation_step m' \<and>
           tilegrid m' = tilegrid m \<longrightarrow> offscreen_loc m' = offscreen_loc m"
  shows "el_x (snd (reset_steps ss els) (tilegrid m)) = fst (offscreen_loc m) \<and>
         el_y (snd (reset_steps ss els) (tilegrid m)) = snd (offscreen_loc m)"
proof -
  let ?els1 = "snd (reset_steps (take i ss) els)"
  have split: "ss = take i ss @ (ss ! i # drop (Suc i) ss)"
    using assms(1) by (simp add: id_take_nth_drop [symmetric])
  have "snd (reset_steps ss els) =
          snd (reset_steps (ss ! i # drop (Suc i) ss) ?els1)"
    by (subst split) (simp only: reset_steps_append)
  also have "\<dots> = snd (reset_steps (drop (Suc i) ss) (reset_step (ss ! i) ?els1))"
    by (simp only: reset_steps_Cons_snd)
  finally have eq: "snd (reset_steps ss els) =
      snd (reset_steps (drop (Suc i) ss) (reset_step (ss ! i) ?els1))" .
  have later: "\<forall>s\<in>set (drop (Suc i) ss). \<forall>m'. step_type s = Animation_step m' \<and>
           tilegrid m' = tilegrid m \<longrightarrow>
           offscreen_loc m' = (fst (offscreen_loc m), snd (offscreen_loc m))"
    using assms(3) by simp
  show ?thesis
    unfolding eq
    using reset_step_position [OF assms(2), of ?els1] later
    by (rule reset_steps_position_keeps)
qed

lemma reset_steps_palette:
  assumes "i < length ss" "step_type (ss ! i) = Animation_step m"
    and "map_of (palettes m) ''default_palette'' = Some pal"
    and "\<forall>s\<in>set (drop (Suc i) ss). \<forall>m'. step_type s = Animation_step m' \<and>
           tilegrid m' = tilegrid m \<longrightarrow>
           map_of (palettes m') ''default_palette'' \<in> {None, Some pal}"
  shows "pixel_shader (snd (reset_steps ss els) (tilegrid m)) = pal"
proof -
  let ?els1 = "snd (reset_steps (take i ss) els)"
  have split: "ss = take i ss @ (ss ! i # drop (Suc i) ss)"
    using assms(1) by (simp add: id_take_nth_drop [symmetric])
  have "snd (reset_steps ss els) =
          snd (reset_steps (ss ! i # drop (Suc i) ss) ?els1)"
    by (subst split) (simp only: reset_steps_append)
  also have "\<dots> = snd (reset_steps (drop (Suc i) ss) (reset_step (ss ! i) ?els1))"
    by (simp only: reset_steps_Cons_snd)
  finally have eq: "snd (reset_steps ss els) =
      snd (reset_steps (drop (Suc i) ss) (reset_step (ss ! i) ?els1))" .
  show ?thesis
    unfolding eq
    using reset_step_palette [OF assms(2,3), of ?els1] assms(4)
    by (rule reset_steps_palette_keeps)
qed

lemma restart_result:
  assumes "steps p = s0 # rest" "step_type s0 = Animation_step m0"
  shows "\<exists>p'. restart ticks p = Inr p' \<and>
           steps p' = map (\<lambda>s. s\<lparr>started := False\<rparr>) (steps p) \<and>
           (\<forall>k. el_x (elements p' k) = el_x (snd (reset_steps (steps p) (elements p)) k) \<and>
                el_y (elements p' k) = el_y (snd (reset_steps (steps p) (elements p)) k) \<and>
                pixel_shader (elements p' k) =
                  pixel_shader (snd (reset_steps (steps p) (elements p)) k)) \<and>
           el_frame (elements p' (tilegrid m0)) = 0 \<and>
           animators p' = animators p \<and>
           events p' = events p @ [Sleep 1, Display_refresh, Clock_read (clock_reads p)] \<and>
           clock_reads p' = Suc (clock_reads p) \<and>
           loop_start_time p' = ticks (clock_reads p)"
proof -
  obtain ss' els' where rs: "reset_steps (steps p) (elements p) = (ss', els')"
    by (cases "reset_steps (steps p) (elements p)") auto
  have ss': "ss' = map (\<lambda>s. s\<lparr>started := False\<rparr>) (steps p)"
    using reset_steps_steps [of "steps p" "elements p"] rs by simp
  then have hd: "ss' = s0\<lparr>started := False\<rparr> # map (\<lambda>s. s\<lparr>started := False\<rparr>) rest"
    using assms(1) by simp
  have "restart ticks p =
          Inr (p\<lparr>steps := ss',
                 elements := els'(tilegrid m0 := (els' (tilegrid m0))\<lparr>el_frame := 0\<rparr>),
                 events := events p @ [Sleep 1, Display_refresh, Clock_read (clock_reads p)],
                 clock_reads := Suc (clock_reads p),
                 loop_start_time := ticks (clock_reads p)\<rparr>)"
    unfolding restart_def rs
    using assms(2) by (simp add: read_clock_def Let_def hd)
  then show ?thesis
    using ss' rs by simp
qed

text \<open>
  C8. When the pass over the steps ends with \<^verbatim>\<open>still_going\<close> false (and the first
  step has a tile grid, which line 676 needs), the round of the main loop completes
  and: every step's \<^verbatim>\<open>started\<close> flag is cleared; the element of every animation step
  is at the step's \<^verbatim>\<open>offscreen_loc\<close> and carries the step's default palette when one
  is recorded (where several steps share an element the last one in the list decides,
  so the statement is for steps that no later step on the same element contradicts);
  the frame of the first step's element is 0; the events after the pass are the
  display refresh, the one-second sleep, a refresh and only then a reading of the
  clock, whose value is the new loop epoch; no animator is touched in between.
\<close>

theorem restart_after_pass:
  assumes "run_steps ticks (ticks (clock_reads p)) [0..<length (steps p)]
             (True, snd (read_clock ticks p)) = Inr (False, p1)"
    and "steps p1 = s0 # rest" "step_type s0 = Animation_step m0"
  shows "\<exists>p'. loop_iteration ticks p = Inr p' \<and>
           steps p' = map (\<lambda>s. s\<lparr>started := False\<rparr>) (steps p1) \<and>
           (\<forall>s\<in>set (steps p'). \<not> started s) \<and>
           (\<forall>j m. j < length (steps p1) \<and> step_type (steps p1 ! j) = Animation_step m \<and>
                (\<forall>s\<in>set (drop (Suc j) (steps p1)). \<forall>m'. step_type s = Animation_step m' \<and>
                    tilegrid m' = tilegrid m \<longrightarrow> offscreen_loc m' = offscreen_loc m)
              \<longrightarrow> el_x (elements p' (tilegrid m)) = fst (offscreen_loc m) \<and>
                  el_y (elements p' (tilegrid m)) = snd (offscreen_loc m)) \<and>
           (\<forall>j m pal. j < length (steps p1) \<and> step_type (steps p1 ! j) = Animation_step m \<and>
                map_of (palettes m) ''default_palette'' = Some pal \<and>
                (\<forall>s\<in>set (drop (Suc j) (steps p1)). \<forall>m'. step_type s = Animation_step m' \<and>
                    tilegrid m' = tilegrid m \<longrightarrow>
                    map_of (palettes m') ''default_palette'' \<in> {None, Some pal})
              \<longrightarrow> pixel_shader (elements p' (tilegrid m)) = pal) \<and>
           el_frame (elements p' (tilegrid m0)) = 0 \<and>
           animators p' = animators p1 \<and>
           events p' = events p1 @
             [Display_refresh, Sleep 1, Display_refresh, Clock_read (clock_reads p1)] \<and>
           loop_start_time p' = ticks (clock_reads p1) \<and>
           clock_reads p' = Suc (clock_reads p1)"
proof -
  let ?p2 = "p1\<lparr>events := events p1 @ [Display_refresh]\<rparr>"
  let ?els = "snd (reset_steps (steps p1) (elements p1))"
  have st2: "steps ?p2 = s0 # rest" using assms(2) by simp
  from restart_result [OF st2 assms(3), of ticks]
  obtain p' where rst: "restart ticks ?p2 = Inr p'"
    and c1: "steps p' = map (\<lambda>s. s\<lparr>started := False\<rparr>) (steps p1)"
    and pos: "\<And>k. el_x (elements p' k) = el_x (?els k) \<and> el_y (elements p' k) = el_y (?els k) \<and>
                pixel_shader (elements p' k) = pixel_shader (?els k)"
    and c5: "el_frame (elements p' (tilegrid m0)) = 0"
    and c6: "animators p' = animators p1"
    and c7: "events p' = events p1 @
             [Display_refresh, Sleep 1, Display_refresh, Clock_read (clock_reads p1)]"
    and c8: "clock_reads p' = Suc (clock_reads p1)" "loop_start_time p' = ticks (clock_reads p1)"
    by auto
  have it: "loop_iteration ticks p = Inr p'"
    using assms(1) rst by (simp add: loop_iteration_def read_clock_def Let_def)
  have c2: "\<forall>s\<in>set (steps p'). \<not> started s" unfolding c1 by auto
  have c3: "\<forall>j m. j < length (steps p1) \<and> step_type (steps p1 ! j) = Animation_step m \<and>
                (\<forall>s\<in>set (drop (Suc j) (steps p1)). \<forall>m'. step_type s = Animation_step m' \<and>
                    tilegrid m' = tilegrid m \<longrightarrow> offscreen_loc m' = offscreen_loc m)
              \<longrightarrow> el_x (elements p' (tilegrid m)) = fst (offscreen_loc m) \<and>
                  el_y (elements p' (tilegrid m)) = snd (offscreen_loc m)"
  proof (intro allI impI)
    fix j m
    assume h: "j < length (steps p1) \<and> step_type (steps p1 ! j) = Animation_step m \<and>
                (\<forall>s\<in>set (drop (Suc j) (steps p1)). \<forall>m'. step_type s = Animation_step m' \<and>
                    tilegrid m' = tilegrid m \<longrightarrow> offscreen_loc m' = offscreen_loc m)"
    then have "el_x (?els (tilegrid m)) = fst (offscreen_loc m) \<and>
               el_y (?els (tilegrid m)) = snd (offscreen_loc m)"
      by (intro reset_steps_position [of j]) blast+
    with pos [of "tilegrid m"]
    show "el_x (elements p' (tilegrid m)) = fst (offscreen_loc m) \<and>
          el_y (elements p' (tilegrid m)) = snd (offscreen_loc m)"
      by simp
  qed
  have c4: "\<forall>j m pal. j < length (steps p1) \<and> step_type (steps p1 ! j) = Animation_step m \<and>
                map_of (palettes m) ''default_palette'' = Some pal \<and>
                (\<forall>s\<in>set (drop (Suc j) (steps p1)). \<forall>m'. step_type s = Animation_step m' \<and>
                    tilegrid m' = tilegrid m \<longrightarrow>
                    map_of (palettes m') ''default_palette'' \<in> {None, Some pal})
              \<longrightarrow> pixel_shader (elements p' (tilegrid m)) = pal"
  proof (intro allI impI)
    fix j m pal
    assume h: "j < length (steps p1) \<and> step_type (steps p1 ! j) = Animation_step m \<and>
                map_of (palettes m) ''default_palette'' = Some pal \<and>
                (\<forall>s\<in>set (drop (Suc j) (steps p1)). \<forall>m'. step_type s = Animation_step m' \<and>
                    tilegrid m' = tilegrid m \<longrightarrow>
                    map_of (palettes m') ''default_palette'' \<in> {None, Some pal})"
    then have "pixel_shader (?els (tilegrid m)) = pal"
      by (intro reset_steps_palette [of j]) blast+
    with pos [of "tilegrid m"]
    show "pixel_shader (elements p' (tilegrid m)) = pal" by simp
  qed
  from it c1 c2 c3 c4 c5 c6 c7 c8 show ?thesis by blast
qed

lemma upt_0_5: "[0..<5] = [0, 1, 2, 3, 4]"
  by (simp add: upt_rec)

lemma init_animator_idle:
  "cur_sprite_index (init_animator k) = None" "\<not> pos_animating (init_animator k)"
  "element (init_animator k) = k"
  by (simp_all add: init_animator_def)

lemma tick_idle:
  assumes "cur_sprite_index a = None" "\<not> pos_animating a"
  shows "tick now a e = Inr (False, a, e)"
  using assms by (simp add: tick_def tick_sprite_part_def)

lemma sample_finished_pass:
  "run_steps (\<lambda>n. 7 + real n) 7 [0..<5] (True, snd (read_clock (\<lambda>n. 7 + real n) sample_finished)) =
     Inr (False,
          sample_finished\<lparr>clock_reads := 5,
            events := [Clock_read 0, Clock_read 1, Tick_call 0 False, Clock_read 2,
                       Tick_call 1 False, Clock_read 3, Tick_call 2 False, Clock_read 4,
                       Tick_call 4 False]\<rparr>)"
  unfolding upt_0_5
  by (simp add: step_body_def tick_animator_def read_clock_def tick_idle init_animator_idle
      sample_finished_def sample_program_def sample_steps_def sample_move_def Let_def)


theorem restart_after_pass_witness:
  "\<exists>p'. loop_iteration (\<lambda>n. 7 + real n) sample_finished = Inr p' \<and>
         map started (steps p') = [False, False, False, False, False] \<and>
         el_x (elements p' 0) = 0 \<and> el_y (elements p' 0) = - 107 \<and>
         pixel_shader (elements p' 0) = [1, 2] \<and> el_frame (elements p' 0) = 0 \<and>
         el_x (elements p' 1) = 83 \<and> el_y (elements p' 1) = 240 \<and>
         pixel_shader (elements p' 1) = [3, 4] \<and>
         el_x (elements p' 2) = 100 \<and> el_y (elements p' 2) = 0 \<and>
         events p' =
           [Clock_read 0, Clock_read 1, Tick_call 0 False, Clock_read 2, Tick_call 1 False,
            Clock_read 3, Tick_call 2 False, Clock_read 4, Tick_call 4 False,
            Display_refresh, Sleep 1, Display_refresh, Clock_read 5] \<and>
         loop_start_time p' = 12"
proof -
  let ?T = "\<lambda>n. 7 + real n"
  let ?p1 = "sample_finished\<lparr>clock_reads := 5,
            events := [Clock_read 0, Clock_read 1, Tick_call 0 False, Clock_read 2,
                       Tick_call 1 False, Clock_read 3, Tick_call 2 False, Clock_read 4,
                       Tick_call 4 False]\<rparr>"
  have cr: "clock_reads sample_finished = 0" "length (steps sample_finished) = 5"
    by (simp_all add: sample_finished_def sample_program_def sample_steps_def)
  have pass: "run_steps ?T (?T (clock_reads sample_finished)) [0..<length (steps sample_finished)]
                (True, snd (read_clock ?T sample_finished)) = Inr (False, ?p1)"
    unfolding cr using sample_finished_pass by simp
  have st: "steps ?p1 = hd (steps ?p1) # tl (steps ?p1)"
    by (simp add: sample_finished_def sample_program_def sample_steps_def)
  have ty: "step_type (hd (steps ?p1)) = Animation_step sample_move"
    by (simp add: sample_finished_def sample_program_def sample_steps_def)
  from restart_after_pass [OF pass st ty]
  obtain p' where it: "loop_iteration ?T sample_finished = Inr p'"
    and stp: "steps p' = map (\<lambda>s. s\<lparr>started := False\<rparr>) (steps ?p1)"
    and "\<forall>s\<in>set (steps p'). \<not> started s"
    and pos0: "\<forall>j m. j < length (steps ?p1) \<and> step_type (steps ?p1 ! j) = Animation_step m \<and>
                (\<forall>s\<in>set (drop (Suc j) (steps ?p1)). \<forall>m'. step_type s = Animation_step m' \<and>
                    tilegrid m' = tilegrid m \<longrightarrow> offscreen_loc m' = offscreen_loc m)
              \<longrightarrow> el_x (elements p' (tilegrid m)) = fst (offscreen_loc m) \<and>
                  el_y (elements p' (tilegrid m)) = snd (offscreen_loc m)"
    and pal0: "\<forall>j m pal. j < length (steps ?p1) \<and> step_type (steps ?p1 ! j) = Animation_step m \<and>
                map_of (palettes m) ''default_palette'' = Some pal \<and>
                (\<forall>s\<in>set (drop (Suc j) (steps ?p1)). \<forall>m'. step_type s = Animation_step m' \<and>
                    tilegrid m' = tilegrid m \<longrightarrow>
                    map_of (palettes m') ''default_palette'' \<in> {None, Some pal})
              \<longrightarrow> pixel_shader (elements p' (tilegrid m)) = pal"
    and fr: "el_frame (elements p' (tilegrid sample_move)) = 0"
    and "animators p' = animators ?p1"
    and ev: "events p' = events ?p1 @
             [Display_refresh, Sleep 1, Display_refresh, Clock_read (clock_reads ?p1)]"
    and ep: "loop_start_time p' = ?T (clock_reads ?p1)"
    and "clock_reads p' = Suc (clock_reads ?p1)"
    by (elim exE conjE)
  note pos = pos0 [rule_format]
  note pal = pal0 [rule_format]
  let ?m1 = "sample_move\<lparr>tilegrid := 1, animator := 1, offscreen_loc := (83, 240),
            onscreen_loc := (83, 50), step_overshoot_pixels := 20,
            palettes := [(''default_palette'', [3, 4]), (''red_palette'', [3, 0])]\<rparr>"
  let ?m2 = "sample_move\<lparr>tilegrid := 2, animator := 2, offscreen_loc := (100, 0),
            onscreen_loc := (30, 0), move_duration := 7 / 4, step_overshoot_pixels := 0,
            step_eased_value := Some 1, sprite_anim_range := None, sprite_delay := None,
            sprite_anim_start := None, palettes := []\<rparr>"
  note defs = sample_finished_def sample_program_def sample_steps_def sample_move_def
  have "el_x (elements p' (tilegrid sample_move)) = fst (offscreen_loc sample_move) \<and>
        el_y (elements p' (tilegrid sample_move)) = snd (offscreen_loc sample_move)"
    by (rule pos [of 0]) (simp add: defs)
  then have x0: "el_x (elements p' 0) = 0 \<and> el_y (elements p' 0) = - 107"
    by (simp add: sample_move_def)
  have "el_x (elements p' (tilegrid ?m1)) = fst (offscreen_loc ?m1) \<and>
        el_y (elements p' (tilegrid ?m1)) = snd (offscreen_loc ?m1)"
    by (rule pos [of 1]) (simp add: defs)
  then have x1: "el_x (elements p' 1) = 83 \<and> el_y (elements p' 1) = 240"
    by simp
  have "el_x (elements p' (tilegrid ?m2)) = fst (offscreen_loc ?m2) \<and>
        el_y (elements p' (tilegrid ?m2)) = snd (offscreen_loc ?m2)"
    by (rule pos [of 2]) (simp add: defs)
  then have x2: "el_x (elements p' 2) = 100 \<and> el_y (elements p' 2) = 0"
    by simp
  have "pixel_shader (elements p' (tilegrid sample_move)) = [1, 2]"
    by (rule pal [of 0]) (simp add: defs)
  then have p0: "pixel_shader (elements p' 0) = [1, 2]"
    by (simp add: sample_move_def)
  have "pixel_shader (elements p' (tilegrid ?m1)) = [3, 4]"
    by (rule pal [of 1]) (simp add: defs)
  then have p1: "pixel_shader (elements p' 1) = [3, 4]"
    by simp
  have f0: "el_frame (elements p' 0) = 0"
    using fr by (simp add: sample_move_def)
  have s: "map started (steps p') = [False, False, False, False, False]"
    unfolding stp by (simp add: defs)
  have e: "events p' =
           [Clock_read 0, Clock_read 1, Tick_call 0 False, Clock_read 2, Tick_call 1 False,
            Clock_read 3, Tick_call 2 False, Clock_read 4, Tick_call 4 False,
            Display_refresh, Sleep 1, Display_refresh, Clock_read 5]"
    unfolding ev by simp
  have l: "loop_start_time p' = 12"
    unfolding ep by simp
  from it s x0 p0 f0 x1 p1 x2 e l show ?thesis by (intro exI [of _ p']) simp
qed

section \<open>The pass over the steps\<close>

lemma ticked_append: "ticked (xs @ ys) = ticked xs @ ticked ys"
  by (induction xs rule: ticked.induct) simp_all

lemma fired_append: "fired (xs @ ys) = fired xs @ fired ys"
  by (induction xs rule: fired.induct) simp_all

lemma fire_effect:
  assumes "fire ticks i step p = Inr p1"
  shows "steps p1 = steps p \<and> loop_start_time p1 = loop_start_time p \<and>
         ticked (events p1) = ticked (events p) \<and>
         fired (events p1) = fired (events p) @ [i]"
proof (cases "step_type step")
  case (Animation_step m)
  then show ?thesis
    using assms
    by (auto simp: fire_def read_clock_def Let_def ticked_append fired_append
        split: prod.splits)
next
  case (Change_palette name)
  then show ?thesis
    using assms
    by (cases "change_palette name (steps p) (elements p)")
       (auto simp: fire_def ticked_append fired_append)
qed

lemma tick_animator_effect:
  assumes "tick_animator ticks i k p = Inr (r, p1)"
  shows "steps p1 = steps p \<and> loop_start_time p1 = loop_start_time p \<and>
         ticked (events p1) = ticked (events p) @ [i] \<and>
         fired (events p1) = fired (events p) \<and>
         last (events p1) = Tick_call i r"
proof -
  let ?a = "animators p k"
  show ?thesis
  proof (cases "tick (ticks (clock_reads p)) ?a (elements p (element ?a))")
    case (Inl err)
    with assms show ?thesis
      by (simp add: tick_animator_def read_clock_def Let_def)
  next
    case (Inr res)
    obtain r' a1 e1 where "res = (r', a1, e1)" by (cases res) auto
    with Inr assms show ?thesis
      by (auto simp: tick_animator_def read_clock_def Let_def ticked_append fired_append)
  qed
qed


lemma step_body_not_due:
  assumes "\<not> due now p i"
  shows "step_body ticks now i (sg, p) = Inr (sg, p)"
  using assms by (simp add: step_body_def due_def Let_def)

lemma step_body_due:
  assumes "step_body ticks now i (sg, p) = Inr (sg', p')" "due now p i"
  shows "steps p' = (if started (steps p ! i) then steps p
                     else (steps p)[i := (steps p ! i)\<lparr>started := True\<rparr>]) \<and>
         loop_start_time p' = loop_start_time p \<and>
         ticked (events p') =
           ticked (events p) @ (if has_animator (steps p ! i) then [i] else []) \<and>
         fired (events p') =
           fired (events p) @ (if started (steps p ! i) then [] else [i]) \<and>
         sg' = (if i = length (steps p) - 1
                then has_animator (steps p ! i) \<and> last (events p') = Tick_call i True
                else sg)"
proof -
  let ?s = "steps p ! i"
  let ?q = "if \<not> started ?s
            then fire ticks i ?s (p\<lparr>steps := (steps p)[i := ?s\<lparr>started := True\<rparr>]\<rparr>)
            else Inr p"
  have body: "step_body ticks now i (sg, p) =
      (case ?q of
         Inl err \<Rightarrow> Inl err
       | Inr p1 \<Rightarrow>
           (case step_type ?s of
              Animation_step m \<Rightarrow>
                (case tick_animator ticks i (animator m) p1 of
                   Inl err \<Rightarrow> Inl err
                 | Inr (r, p2) \<Rightarrow> Inr (if i = length (steps p2) - 1 then r else sg, p2))
            | Change_palette n \<Rightarrow> Inr (if i = length (steps p1) - 1 then False else sg, p1)))"
    using assms(2) by (simp add: step_body_def due_def Let_def)
  obtain p1 where q: "?q = Inr p1"
    using assms(1) unfolding body by (cases ?q) simp_all
  have p1: "steps p1 = (if started ?s then steps p
                        else (steps p)[i := ?s\<lparr>started := True\<rparr>]) \<and>
            loop_start_time p1 = loop_start_time p \<and>
            ticked (events p1) = ticked (events p) \<and>
            fired (events p1) = fired (events p) @ (if started ?s then [] else [i])"
  proof (cases "started ?s")
    case True
    with q show ?thesis by simp
  next
    case False
    with q have "fire ticks i ?s (p\<lparr>steps := (steps p)[i := ?s\<lparr>started := True\<rparr>]\<rparr>) = Inr p1"
      by simp
    from fire_effect [OF this] False show ?thesis by simp
  qed
  then have len: "length (steps p1) = length (steps p)" by (simp split: if_splits)
  show ?thesis
  proof (cases "step_type ?s")
    case (Animation_step m)
    then have rest: "(case tick_animator ticks i (animator m) p1 of
                   Inl err \<Rightarrow> Inl err
                 | Inr (r, p2) \<Rightarrow> Inr (if i = length (steps p2) - 1 then r else sg, p2))
               = Inr (sg', p')"
      using assms(1) unfolding body q by simp
    then obtain r p2 where t: "tick_animator ticks i (animator m) p1 = Inr (r, p2)"
      by (cases "tick_animator ticks i (animator m) p1") auto
    from tick_animator_effect [OF t]
    have p2: "steps p2 = steps p1" "loop_start_time p2 = loop_start_time p1"
      "ticked (events p2) = ticked (events p1) @ [i]" "fired (events p2) = fired (events p1)"
      "last (events p2) = Tick_call i r"
      by simp_all
    from rest t have res: "p' = p2" "sg' = (if i = length (steps p2) - 1 then r else sg)"
      by auto
    have ha: "has_animator ?s" using Animation_step by (simp add: has_animator_def)
    show ?thesis
      using res p2 p1 len ha by auto
  next
    case (Change_palette n)
    then have res: "p' = p1" "sg' = (if i = length (steps p1) - 1 then False else sg)"
      using assms(1) unfolding body q by auto
    have ha: "\<not> has_animator ?s" using Change_palette by (simp add: has_animator_def)
    show ?thesis
      using res p1 len ha by auto
  qed
qed

lemma step_body_effect:
  assumes "step_body ticks now i (sg, p) = Inr (sg', p')"
  shows "loop_start_time p' = loop_start_time p \<and> length (steps p') = length (steps p) \<and>
         (\<forall>j. j \<noteq> i \<longrightarrow> steps p' ! j = steps p ! j) \<and>
         ticked (events p') =
           ticked (events p) @ (if due now p i \<and> has_animator (steps p ! i) then [i] else []) \<and>
         fired (events p') =
           fired (events p) @ (if due now p i \<and> \<not> started (steps p ! i) then [i] else []) \<and>
         (i \<noteq> length (steps p) - 1 \<longrightarrow> sg' = sg)"
proof (cases "due now p i")
  case True
  from step_body_due [OF assms True] show ?thesis
    using True by (auto split: if_splits)
next
  case False
  from step_body_not_due [OF False, of ticks sg] assms have "sg' = sg" "p' = p"
    by simp_all
  with False show ?thesis by simp
qed

lemma run_steps_Cons:
  assumes "run_steps ticks now (i # rest) sp = Inr sp'"
  obtains sp1 where "step_body ticks now i sp = Inr sp1" "run_steps ticks now rest sp1 = Inr sp'"
  using assms by (cases "step_body ticks now i sp") simp_all

lemma run_steps_append:
  "run_steps ticks now (xs @ ys) sp =
     (case run_steps ticks now xs sp of
        Inl err \<Rightarrow> Inl err
      | Inr sp1 \<Rightarrow> run_steps ticks now ys sp1)"
  by (induction xs arbitrary: sp) (simp_all split: sum.splits)

lemma run_steps_trace:
  assumes "run_steps ticks now is (sg, p) = Inr (sg', p')" "distinct is"
  shows "loop_start_time p' = loop_start_time p \<and> length (steps p') = length (steps p) \<and>
         (\<forall>j. j \<notin> set is \<longrightarrow> steps p' ! j = steps p ! j) \<and>
         ticked (events p') =
           ticked (events p) @ filter (\<lambda>i. due now p i \<and> has_animator (steps p ! i)) is \<and>
         fired (events p') =
           fired (events p) @ filter (\<lambda>i. due now p i \<and> \<not> started (steps p ! i)) is \<and>
         (length (steps p) - 1 \<notin> set is \<longrightarrow> sg' = sg)"
  using assms
proof (induction "is" arbitrary: sg p)
  case Nil
  then show ?case by simp
next
  case (Cons i rest)
  from Cons.prems(1) obtain sp1 where b: "step_body ticks now i (sg, p) = Inr sp1"
    and r: "run_steps ticks now rest sp1 = Inr (sg', p')"
    by (rule run_steps_Cons)
  obtain sg1 p1 where sp1: "sp1 = (sg1, p1)" by (cases sp1) auto
  note e1 = step_body_effect [OF b [unfolded sp1]]
  have d: "distinct rest" "i \<notin> set rest" using Cons.prems(2) by simp_all
  note e2 = Cons.IH [OF r [unfolded sp1] d(1)]
  from e1 have nth: "\<forall>j. j \<noteq> i \<longrightarrow> steps p1 ! j = steps p ! j"
    by blast
  have same: "steps p1 ! j = steps p ! j" if "j \<in> set rest" for j
  proof -
    from that d(2) have "j \<noteq> i" by blast
    with nth show ?thesis by blast
  qed
  have due_same: "due now p1 j = due now p j" if "j \<in> set rest" for j
    using e1 same [OF that] by (simp add: due_def)
  have f1: "filter (\<lambda>i. due now p1 i \<and> has_animator (steps p1 ! i)) rest =
            filter (\<lambda>i. due now p i \<and> has_animator (steps p ! i)) rest"
    by (rule filter_cong) (simp_all add: same due_same)
  have f2: "filter (\<lambda>i. due now p1 i \<and> \<not> started (steps p1 ! i)) rest =
            filter (\<lambda>i. due now p i \<and> \<not> started (steps p ! i)) rest"
    by (rule filter_cong) (simp_all add: same due_same)
  have c1: "loop_start_time p' = loop_start_time p" "length (steps p') = length (steps p)"
    using e1 e2 by simp_all
  have c2: "\<forall>j. j \<notin> set (i # rest) \<longrightarrow> steps p' ! j = steps p ! j"
    using e1 e2 by simp
  have c3: "ticked (events p') =
           ticked (events p) @ filter (\<lambda>i. due now p i \<and> has_animator (steps p ! i)) (i # rest)"
    using e1 e2 f1 by simp
  have c4: "fired (events p') =
           fired (events p) @ filter (\<lambda>i. due now p i \<and> \<not> started (steps p ! i)) (i # rest)"
    using e1 e2 f2 by simp
  have c5: "length (steps p) - 1 \<notin> set (i # rest) \<longrightarrow> sg' = sg"
    using e1 e2 by simp
  from c1 c2 c3 c4 c5 show ?case by blast
qed

text \<open>
  C2 (as amended). In a pass over the steps that completes, the animators ticked are
  those of the animation steps whose start offset has elapsed
  (\<open>now - start_time \<ge> step["start_time"]\<close>), in list order: a step whose offset has
  not elapsed is neither fired nor ticked. The steps fired are those whose offset has
  elapsed and that had not started. \<^verbatim>\<open>still_going\<close> stays \<^verbatim>\<open>True\<close> unless the offset
  of the last step has elapsed; then it is the result of that step's \<^verbatim>\<open>tick()\<close>, the
  last call of the pass, or \<^verbatim>\<open>False\<close> when the last step has no animator.
\<close>

theorem pass_ticks_due_steps:
  assumes "run_steps ticks now [0..<length (steps p)] (True, p) = Inr (still_going, p')"
  shows "ticked (events p') =
           ticked (events p) @
           filter (\<lambda>i. due now p i \<and> has_animator (steps p ! i)) [0..<length (steps p)] \<and>
         fired (events p') =
           fired (events p) @
           filter (\<lambda>i. due now p i \<and> \<not> started (steps p ! i)) [0..<length (steps p)] \<and>
         still_going =
           (if steps p \<noteq> [] \<and> due now p (length (steps p) - 1)
            then has_animator (steps p ! (length (steps p) - 1)) \<and>
                 last (events p') = Tick_call (length (steps p) - 1) True
            else True)"
proof -
  let ?n = "length (steps p)"
  have tr: "ticked (events p') =
           ticked (events p) @ filter (\<lambda>i. due now p i \<and> has_animator (steps p ! i)) [0..<?n]"
    and fr: "fired (events p') =
           fired (events p) @ filter (\<lambda>i. due now p i \<and> \<not> started (steps p ! i)) [0..<?n]"
    using run_steps_trace [OF assms] by simp_all
  have sg: "still_going =
           (if steps p \<noteq> [] \<and> due now p (?n - 1)
            then has_animator (steps p ! (?n - 1)) \<and> last (events p') = Tick_call (?n - 1) True
            else True)"
  proof (cases "steps p = []")
    case True
    with assms show ?thesis by simp
  next
    case False
    then have n: "0 < ?n" by simp
    then have upt: "[0..<?n] = [0..<?n - 1] @ [?n - 1]"
      by (metis Suc_pred' upt_Suc_append zero_le)
    have "run_steps ticks now ([0..<?n - 1] @ [?n - 1]) (True, p) = Inr (still_going, p')"
      using assms upt by simp
    then obtain sp1 where before: "run_steps ticks now [0..<?n - 1] (True, p) = Inr sp1"
      and lst: "run_steps ticks now [?n - 1] sp1 = Inr (still_going, p')"
      by (cases "run_steps ticks now [0..<?n - 1] (True, p)")
         (simp_all add: run_steps_append)
    obtain sg1 p1 where sp1: "sp1 = (sg1, p1)" by (cases sp1) auto
    from run_steps_trace [OF before [unfolded sp1]]
    have p1: "loop_start_time p1 = loop_start_time p" "length (steps p1) = ?n"
      "steps p1 ! (?n - 1) = steps p ! (?n - 1)" "sg1 = True"
      using n by simp_all
    then have due1: "due now p1 (?n - 1) = due now p (?n - 1)"
      by (simp add: due_def)
    from lst have body: "step_body ticks now (?n - 1) (True, p1) = Inr (still_going, p')"
      unfolding sp1 p1(4)
      by (cases "step_body ticks now (?n - 1) (True, p1)") simp_all
    show ?thesis
    proof (cases "due now p (?n - 1)")
      case True
      with due1 have "due now p1 (?n - 1)" by simp
      from step_body_due [OF body this] p1 True False show ?thesis by simp
    next
      case nd: False
      with due1 have "\<not> due now p1 (?n - 1)" by simp
      from step_body_not_due [OF this, of ticks True] body nd show ?thesis by simp
    qed
  qed
  from tr fr sg show ?thesis by blast
qed

lemma sqrt_16384: "sqrt 16384 = 128"
proof -
  have "sqrt 16384 = sqrt (128\<^sup>2)" by simp
  then show ?thesis by (simp only: real_sqrt_abs)
qed

lemma sample_first_pass:
  "map_sum id (\<lambda>sp. (fst sp, events (snd sp)))
     (run_steps (\<lambda>n. 0) 0 [0..<5] (True, snd (read_clock (\<lambda>n. 0) sample_program))) =
   Inr (True, [Clock_read 0, Clock_read 1, Animate_to_call 0 True, Clock_read 2,
               Tick_call 0 True])"
  unfolding upt_0_5
  by (simp add: step_body_def fire_def step_args_def animate_to_def tick_animator_def
      tick_def tick_sprite_part_def tick_position_part_def current_position_def py_int_def
      read_clock_def sample_program_def sample_steps_def sample_move_def sample_elements_def
      init_animator_def Let_def sqrt_16384)


lemma sample_first_pass_result:
  obtains p1 where
    "run_steps (\<lambda>n. 0) 0 [0..<length (steps (snd (read_clock (\<lambda>n. 0) sample_program)))]
       (True, snd (read_clock (\<lambda>n. 0) sample_program)) = Inr (True, p1)"
    "events p1 = [Clock_read 0, Clock_read 1, Animate_to_call 0 True, Clock_read 2,
                  Tick_call 0 True]"
proof -
  let ?run = "run_steps (\<lambda>n. 0) 0 [0..<5] (True, snd (read_clock (\<lambda>n. 0) sample_program))"
  have len: "length (steps (snd (read_clock (\<lambda>n. 0) sample_program))) = 5"
    by (simp add: read_clock_def sample_program_def sample_steps_def)
  from sample_first_pass obtain sp where run: "?run = Inr sp"
    and sp: "(fst sp, events (snd sp)) =
               (True, [Clock_read 0, Clock_read 1, Animate_to_call 0 True, Clock_read 2,
                       Tick_call 0 True])"
    by (cases ?run) auto
  from sp have "sp = (True, snd sp)" by (cases sp) simp
  with run have "?run = Inr (True, snd sp)" by simp
  then show ?thesis
    using sp by (intro that [of "snd sp"]) (simp_all add: len)
qed

theorem pass_ticks_due_steps_witness:
  "\<exists>p'. run_steps (\<lambda>n. 0) 0 [0..<length (steps (snd (read_clock (\<lambda>n. 0) sample_program)))]
           (True, snd (read_clock (\<lambda>n. 0) sample_program)) = Inr (True, p') \<and>
         ticked (events p') = [0] \<and> fired (events p') = [0] \<and>
         filter (\<lambda>i. due 0 (snd (read_clock (\<lambda>n. 0) sample_program)) i \<and>
                     has_animator (steps (snd (read_clock (\<lambda>n. 0) sample_program)) ! i))
           [0..<length (steps (snd (read_clock (\<lambda>n. 0) sample_program)))] = [0] \<and>
         \<not> due 0 (snd (read_clock (\<lambda>n. 0) sample_program)) 4"
proof -
  let ?p = "snd (read_clock (\<lambda>n. 0) sample_program)"
  obtain p1 where run: "run_steps (\<lambda>n. 0) 0 [0..<length (steps ?p)] (True, ?p) = Inr (True, p1)"
    and ev: "events p1 = [Clock_read 0, Clock_read 1, Animate_to_call 0 True, Clock_read 2,
                          Tick_call 0 True]"
    by (rule sample_first_pass_result)
  have len: "length (steps ?p) = 5"
    by (simp add: read_clock_def sample_program_def sample_steps_def)
  have flt: "filter (\<lambda>i. due 0 ?p i \<and> has_animator (steps ?p ! i)) [0..<length (steps ?p)] = [0]"
    unfolding len upt_0_5
    by (simp add: due_def has_animator_def read_clock_def sample_program_def sample_steps_def)
  have nd: "\<not> due 0 ?p 4"
    by (simp add: due_def read_clock_def sample_program_def sample_steps_def)
  from pass_ticks_due_steps [OF run] have "ticked (events p1) = ticked (events ?p) @
           filter (\<lambda>i. due 0 ?p i \<and> has_animator (steps ?p ! i)) [0..<length (steps ?p)]"
    by blast
  then have tk: "ticked (events p1) = [0]"
    unfolding flt by (simp add: read_clock_def sample_program_def)
  have fd: "fired (events p1) = [0]"
    unfolding ev by simp
  from run tk fd flt nd show ?thesis by blast
qed

text \<open>
  C2 as stated fails. In the first round of the sample timeline, with the clock at the
  loop epoch, only step 0 is due: it fires and its animator is ticked. Steps 1 and 2
  own the animators 1 and 2, their offsets have not elapsed, and no \<^verbatim>\<open>tick()\<close> is
  called on those animators in the round.
\<close>

theorem pass_skips_steps_not_due:
  "map_sum id events (loop_iteration (\<lambda>n. 0) sample_program) =
     Inr [Clock_read 0, Clock_read 1, Animate_to_call 0 True, Clock_read 2, Tick_call 0 True,
          Display_refresh] \<and>
   map (\<lambda>s. case step_type s of Animation_step m \<Rightarrow> Some (animator m)
                                | Change_palette n \<Rightarrow> None) sample_steps =
     [Some 0, Some 1, Some 2, None, Some 0]"
proof -
  let ?p = "snd (read_clock (\<lambda>n. 0) sample_program)"
  obtain p1 where run: "run_steps (\<lambda>n. 0) 0 [0..<length (steps ?p)] (True, ?p) = Inr (True, p1)"
    and ev: "events p1 = [Clock_read 0, Clock_read 1, Animate_to_call 0 True, Clock_read 2,
                          Tick_call 0 True]"
    by (rule sample_first_pass_result)
  have "loop_iteration (\<lambda>n. 0) sample_program =
          Inr (p1\<lparr>events := events p1 @ [Display_refresh]\<rparr>)"
    using run by (simp add: loop_iteration_def case_prod_beta Let_def read_clock_def)
  then show ?thesis
    using ev by (simp add: sample_steps_def sample_move_def)
qed

end
